theory Spec2Isabelle
  imports Complex_Main "HOL-Library.Word"
begin

section \<open>Conventions\<close>

text \<open>
  The repository is JavaScript. Every JavaScript number is modelled as a mathematical
  real (type \<open>real\<close>), and the values NaN and Infinity do not exist. The option
  \<open>maxAttempts\<close> and the counter \<open>attempts\<close> are integers, the counts of pixels are natural
  numbers.

  The arithmetic of the sampling loops of \<open>determineCircleColor\<close> is that of doubles:
  every addition, multiplication and division there is the exact result under a rounding
  function \<open>fl\<close>, which is a parameter of the model. The rounding decides how often these
  loops run, since they add the step to the counter again and again. Every theorem holds
  for every \<open>fl\<close>: for the rounding to the nearest double, which gives the code, as for
  no rounding at all. All other additions, multiplications, divisions, square roots and
  powers are exact.

  A JavaScript array is a list. The text that the code trims and splits into words is the
  list of its UTF-16 code units; font families, colours and palette names are byte
  strings. A call of \<open>Math.random()\<close> reads the next element of an explicit list of draws,
  which may hold any reals. Output to the console is left out, except for the warning of
  the constructor.

  A function of the code that may not return has a result of type \<open>option\<close>, \<open>None\<close>
  standing for a run that does not end; a function that may raise has a result of type
  \<open>js_error + 'a\<close>.
\<close>

section \<open>Luminance (utils/luminance.js)\<close>

text \<open>The inner function \<open>sRGBtoLin\<close> of \<open>getLuminance\<close>; \<open>Math.pow\<close> is \<open>powr\<close>.\<close>

definition sRGBtoLin :: "real \<Rightarrow> real" where
  "sRGBtoLin channel =
     (if channel \<le> 0.04045 then channel / 12.92
      else ((channel + 0.055) / 1.055) powr 2.4)"

definition getLuminance :: "real \<Rightarrow> real \<Rightarrow> real \<Rightarrow> real" where
  "getLuminance r g b =
     (let vR = r / 255; vG = g / 255; vB = b / 255
      in 0.2126 * sRGBtoLin vR + 0.7152 * sRGBtoLin vG + 0.0722 * sRGBtoLin vB)"

section \<open>The luminance map (CanvasUtils.createLuminanceMap)\<close>

text \<open>
  What \<open>createLuminanceMap\<close> reads of a canvas: its width, its height and the bytes of
  \<open>getImageData(0, 0, width, height).data\<close>, four per pixel (red, green, blue, alpha),
  row by row.
\<close>

record canvas =
  cv_width :: nat
  cv_height :: nat
  cv_data :: "8 word list"

text \<open>
  One cell of the map: \<open>getLuminance(r, g, b) < luminanceThreshold\<close>. A read beyond the
  end of the data yields \<open>undefined\<close> in JavaScript, the luminance is then NaN and the
  comparison is false.
\<close>

definition luminanceCell :: "8 word list \<Rightarrow> nat \<Rightarrow> real \<Rightarrow> bool" where
  "luminanceCell dat idx luminanceThreshold =
     (if idx + 2 < length dat
      then getLuminance (real (unat (dat ! idx))) (real (unat (dat ! (idx + 1))))
             (real (unat (dat ! (idx + 2)))) < luminanceThreshold
      else False)"

definition createLuminanceMap :: "canvas \<Rightarrow> real \<Rightarrow> bool list list" where
  "createLuminanceMap cv luminanceThreshold =
     map (\<lambda>y. map (\<lambda>x. luminanceCell (cv_data cv) ((y * cv_width cv + x) * 4) luminanceThreshold)
                  [0 ..< cv_width cv])
         [0 ..< cv_height cv]"

text \<open>
  The reference definition in the words of the specification: the transfer function
  \<open>lin\<close>, the luminance \<open>Y\<close> of 8-bit channels, and the mask value \<open>Y < threshold\<close>.
\<close>

definition spec_lin :: "real \<Rightarrow> real" where
  "spec_lin c = (if c \<le> 0.04045 then c / 12.92 else ((c + 0.055) / 1.055) powr 2.4)"

definition spec_Y :: "8 word \<Rightarrow> 8 word \<Rightarrow> 8 word \<Rightarrow> real" where
  "spec_Y r g b =
     0.2126 * spec_lin (real (unat r) / 255) + 0.7152 * spec_lin (real (unat g) / 255)
       + 0.0722 * spec_lin (real (unat b) / 255)"

definition spec_mask_value :: "8 word \<Rightarrow> 8 word \<Rightarrow> 8 word \<Rightarrow> real \<Rightarrow> bool" where
  "spec_mask_value r g b threshold = (spec_Y r g b < threshold)"

text \<open>The red, green and blue bytes of the pixel in column \<open>x\<close> of row \<open>y\<close>.\<close>

definition pixel_r :: "canvas \<Rightarrow> nat \<Rightarrow> nat \<Rightarrow> 8 word" where
  "pixel_r cv x y = cv_data cv ! ((y * cv_width cv + x) * 4)"

definition pixel_g :: "canvas \<Rightarrow> nat \<Rightarrow> nat \<Rightarrow> 8 word" where
  "pixel_g cv x y = cv_data cv ! ((y * cv_width cv + x) * 4 + 1)"

definition pixel_b :: "canvas \<Rightarrow> nat \<Rightarrow> nat \<Rightarrow> 8 word" where
  "pixel_b cv x y = cv_data cv ! ((y * cv_width cv + x) * 4 + 2)"

text \<open>The data of a canvas as \<open>getImageData\<close> delivers it: four bytes for every pixel.\<close>

definition canvas_ok :: "canvas \<Rightarrow> bool" where
  "canvas_ok cv = (length (cv_data cv) = 4 * cv_width cv * cv_height cv)"

section \<open>JavaScript values and errors\<close>

text \<open>
  The values a colour option can hold: a string, \<open>undefined\<close> or \<open>null\<close>. \<open>Null\<close> is also
  what \<open>determineCircleColor\<close> returns for a rejected circle. \<open>truthy\<close> is the test of
  \<open>if (color)\<close>: \<open>undefined\<close>, \<open>null\<close> and the empty string are falsy.
\<close>

datatype js_value = Undefined | Null | Str string

fun truthy :: "js_value \<Rightarrow> bool" where
  "truthy Undefined = False"
| "truthy Null = False"
| "truthy (Str s) = (s \<noteq> [])"

text \<open>The one exception the modelled code can raise: indexing \<open>undefined\<close>.\<close>

datatype js_error = TypeError

section \<open>Circle placement (utils/circle-placer.js)\<close>

record circle =
  circ_x :: real
  circ_y :: real
  circ_radius :: real
  circ_color :: js_value

record constraints =
  c_width :: real
  c_height :: real
  c_margin :: real
  c_circular :: bool
  c_centerX :: real
  c_centerY :: real
  c_padding :: real

text \<open>
  The overlap loop of \<open>isValidPlacement\<close>: \<open>True\<close> as soon as one existing circle is
  closer than the two radii plus the padding.
\<close>

fun overlapsExisting :: "real \<Rightarrow> real \<Rightarrow> real \<Rightarrow> real \<Rightarrow> circle list \<Rightarrow> bool" where
  "overlapsExisting x y radius padding [] = False"
| "overlapsExisting x y radius padding (c # existingCircles) =
     (let dx = x - circ_x c; dy = y - circ_y c; distance = sqrt (dx * dx + dy * dy)
      in if distance < radius + circ_radius c + padding then True
         else overlapsExisting x y radius padding existingCircles)"

definition isValidPlacement :: "real \<Rightarrow> real \<Rightarrow> real \<Rightarrow> circle list \<Rightarrow> constraints \<Rightarrow> bool" where
  "isValidPlacement x y radius existingCircles cs =
     (if x - radius < c_margin cs \<or> x + radius > c_width cs - c_margin cs \<or>
         y - radius < c_margin cs \<or> y + radius > c_height cs - c_margin cs
      then False
      else if c_circular cs \<and>
              (let circleRadius = min (c_width cs) (c_height cs) / 2 - c_margin cs;
                   distanceFromCenter = sqrt ((x - c_centerX cs)\<^sup>2 + (y - c_centerY cs)\<^sup>2)
               in distanceFromCenter + radius > circleRadius)
      then False
      else \<not> overlapsExisting x y radius (c_padding cs) existingCircles)"

text \<open>
  \<open>generateRandomPosition\<close> calls \<open>Math.random()\<close> twice; \<open>random1\<close> and \<open>random2\<close> are
  the two values in the order of the calls (angle then distance, or x then y).
\<close>

definition generateRandomPosition :: "constraints \<Rightarrow> real \<Rightarrow> real \<Rightarrow> real \<times> real" where
  "generateRandomPosition cs random1 random2 =
     (if c_circular cs
      then (let circleRadius = min (c_width cs) (c_height cs) / 2 - c_margin cs;
                angle = random1 * 2 * pi;
                distance = random2 * circleRadius
            in (c_centerX cs + cos angle * distance, c_centerY cs + sin angle * distance))
      else (let effectiveWidth = c_width cs - c_margin cs * 2;
                effectiveHeight = c_height cs - c_margin cs * 2
            in (c_margin cs + random1 * effectiveWidth, c_margin cs + random2 * effectiveHeight)))"

text \<open>
  The loop \<open>for (let d = lo; d <= hi; d += step) body\<close> over a state \<open>s\<close>, the addition
  \<open>d += step\<close> being rounded by \<open>fl\<close>. The body may raise (\<open>Inl\<close>) or not return
  (\<open>None\<close>); the loop itself does not return when the counter never exceeds \<open>hi\<close>, and
  its value is then \<open>None\<close>.
\<close>

partial_function (option) for_loop ::
  "(real \<Rightarrow> real) \<Rightarrow> (real \<Rightarrow> 's \<Rightarrow> (js_error + 's) option) \<Rightarrow> real \<Rightarrow> real \<Rightarrow> real \<Rightarrow> 's
     \<Rightarrow> (js_error + 's) option"
where
  "for_loop fl body hi step d s =
     (if d \<le> hi
      then (case body d s of
              None \<Rightarrow> None
            | Some (Inl e) \<Rightarrow> Some (Inl e)
            | Some (Inr s') \<Rightarrow> for_loop fl body hi step (fl (d + step)) s')
      else Some (Inr s))"

text \<open>
  The test \<open>if (luminanceMap[py][px])\<close> for \<open>py, px \<ge> 0\<close>: a missing row makes the
  second index raise a TypeError, a missing cell is \<open>undefined\<close> and so falsy.
\<close>

definition luminanceAt :: "bool list list \<Rightarrow> int \<Rightarrow> int \<Rightarrow> js_error + bool" where
  "luminanceAt luminanceMap py px =
     (if nat py < length luminanceMap
      then (if nat px < length (luminanceMap ! nat py)
            then Inr (luminanceMap ! nat py ! nat px) else Inr False)
      else Inl TypeError)"

record colorOptions =
  co_tolerance :: real
  co_onColor :: js_value
  co_offColor :: js_value
  co_mapWidth :: real
  co_mapHeight :: real

text \<open>
  The body of the inner sampling loop of \<open>determineCircleColor\<close>, on the pair
  \<open>(inPixels, totalPixels)\<close>.
\<close>

definition samplePixel ::
  "(real \<Rightarrow> real) \<Rightarrow> real \<Rightarrow> real \<Rightarrow> real \<Rightarrow> bool list list \<Rightarrow> real \<Rightarrow> real \<Rightarrow> real \<Rightarrow> real
     \<Rightarrow> nat \<times> nat \<Rightarrow> js_error + nat \<times> nat" where
  "samplePixel fl x y radius luminanceMap mapWidth mapHeight dy dx acc =
     (case acc of (inPixels, totalPixels) \<Rightarrow>
        if fl (fl (dx * dx) + fl (dy * dy)) \<le> fl (radius * radius)
        then (let px = \<lfloor>fl (x + dx)\<rfloor>; py = \<lfloor>fl (y + dy)\<rfloor>
              in if px \<ge> 0 \<and> of_int px < mapWidth \<and> py \<ge> 0 \<and> of_int py < mapHeight
                 then (case luminanceAt luminanceMap py px of
                         Inl e \<Rightarrow> Inl e
                       | Inr b \<Rightarrow> Inr (if b then inPixels + 1 else inPixels, totalPixels + 1))
                 else Inr (inPixels, totalPixels))
        else Inr (inPixels, totalPixels))"

text \<open>
  The two nested sampling loops: the final \<open>(inPixels, totalPixels)\<close>. The step of both
  is the rounded quotient \<open>radius / samples\<close>.
\<close>

definition samplePixels ::
  "(real \<Rightarrow> real) \<Rightarrow> real \<Rightarrow> real \<Rightarrow> real \<Rightarrow> bool list list \<Rightarrow> real \<Rightarrow> real
     \<Rightarrow> (js_error + nat \<times> nat) option" where
  "samplePixels fl x y radius luminanceMap mapWidth mapHeight =
     (let samples = max 8 radius
      in for_loop fl
           (\<lambda>dy. for_loop fl
                    (\<lambda>dx acc. Some (samplePixel fl x y radius luminanceMap mapWidth mapHeight dy dx acc))
                    radius (fl (radius / samples)) (- radius))
           radius (fl (radius / samples)) (- radius) (0, 0))"

definition determineCircleColor ::
  "(real \<Rightarrow> real) \<Rightarrow> real \<Rightarrow> real \<Rightarrow> real \<Rightarrow> bool list list \<Rightarrow> colorOptions
     \<Rightarrow> (js_error + js_value) option" where
  "determineCircleColor fl x y radius luminanceMap options =
     (case samplePixels fl x y radius luminanceMap (co_mapWidth options) (co_mapHeight options) of
        None \<Rightarrow> None
      | Some (Inl e) \<Rightarrow> Some (Inl e)
      | Some (Inr (inPixels, totalPixels)) \<Rightarrow>
          Some (Inr
            (if totalPixels = 0 then Null
             else (let inRatio = real inPixels / real totalPixels
                   in if inRatio > co_tolerance options \<and> inRatio < 1 - co_tolerance options
                      then Null
                      else if inRatio > 0.5 then co_onColor options else co_offColor options))))"

section \<open>The generator (colorvision-generator.js)\<close>

record options =
  o_width :: real
  o_height :: real
  o_minRadius :: real
  o_maxRadius :: real
  o_onColor :: js_value
  o_offColor :: js_value
  o_luminanceThreshold :: real
  o_tolerance :: real
  o_padding :: real
  o_maxAttempts :: int
  o_fontSize :: real
  o_fontFamily :: string
  o_textColor :: string
  o_backgroundColor :: string
  o_margin :: real
  o_circular :: bool
  o_circularBackgroundColor :: string
  o_maxTextFit :: bool
  o_palette :: "string option"
  o_format :: string
  o_transparent :: bool

definition DEFAULT_OPTIONS :: options where
  "DEFAULT_OPTIONS =
     \<lparr>o_width = 800, o_height = 800, o_minRadius = 3, o_maxRadius = 20,
      o_onColor = Str ''#FF6B35'', o_offColor = Str ''#4ECDC4'',
      o_luminanceThreshold = 0.5, o_tolerance = 0.1, o_padding = 0, o_maxAttempts = 10000,
      o_fontSize = 300, o_fontFamily = ''Arial, sans-serif'', o_textColor = ''#000000'',
      o_backgroundColor = ''#FFFFFF'', o_margin = 50, o_circular = False,
      o_circularBackgroundColor = ''#F5F5F5'', o_maxTextFit = False, o_palette = None,
      o_format = ''png'', o_transparent = False\<rparr>"

text \<open>The mutable variables of \<open>_generateCircles\<close>.\<close>

record packState =
  ps_circles :: "circle list"
  ps_attempts :: int
  ps_currentMaxRadius :: real

text \<open>The objects \<open>constraints\<close> and \<open>colorOptions\<close> that \<open>_generateCircles\<close> builds.\<close>

definition packConstraints :: "options \<Rightarrow> constraints" where
  "packConstraints opts =
     \<lparr>c_width = o_width opts, c_height = o_height opts, c_margin = o_margin opts,
      c_circular = o_circular opts, c_centerX = o_width opts / 2, c_centerY = o_height opts / 2,
      c_padding = o_padding opts\<rparr>"

definition packColorOptions :: "options \<Rightarrow> colorOptions" where
  "packColorOptions opts =
     \<lparr>co_tolerance = o_tolerance opts, co_onColor = o_onColor opts, co_offColor = o_offColor opts,
      co_mapWidth = o_width opts, co_mapHeight = o_height opts\<rparr>"

text \<open>The last statement of the loop body: \<open>if (attempts > 1000 && ...)\<close>.\<close>

definition reduceRadius :: "options \<Rightarrow> packState \<Rightarrow> packState" where
  "reduceRadius opts st =
     (if ps_attempts st > 1000 \<and> ps_currentMaxRadius st > o_minRadius opts + 1
      then st\<lparr>ps_currentMaxRadius := ps_currentMaxRadius st * 0.98, ps_attempts := 0\<rparr>
      else st)"

text \<open>
  One iteration of the \<open>while\<close> loop. It calls \<open>Math.random()\<close> three times: twice in
  \<open>generateRandomPosition\<close>, then once for the radius.
\<close>

definition loopBody ::
  "(real \<Rightarrow> real) \<Rightarrow> options \<Rightarrow> bool list list \<Rightarrow> real \<Rightarrow> real \<Rightarrow> real \<Rightarrow> packState
     \<Rightarrow> (js_error + packState) option" where
  "loopBody fl opts luminanceMap random1 random2 random3 st =
     (let position = generateRandomPosition (packConstraints opts) random1 random2;
          radius = o_minRadius opts + random3 * (ps_currentMaxRadius st - o_minRadius opts)
      in if isValidPlacement (fst position) (snd position) radius (ps_circles st) (packConstraints opts)
         then (case determineCircleColor fl (fst position) (snd position) radius luminanceMap
                      (packColorOptions opts) of
                 None \<Rightarrow> None
               | Some (Inl e) \<Rightarrow> Some (Inl e)
               | Some (Inr color) \<Rightarrow>
                   if truthy color
                   then Some (Inr (reduceRadius opts
                          (st\<lparr>ps_circles := ps_circles st @
                                 [\<lparr>circ_x = fst position, circ_y = snd position,
                                   circ_radius = radius, circ_color = color\<rparr>],
                               ps_attempts := 0\<rparr>)))
                   else Some (Inr (reduceRadius opts (st\<lparr>ps_attempts := ps_attempts st + 1\<rparr>))))
         else Some (Inr (reduceRadius opts (st\<lparr>ps_attempts := ps_attempts st + 1\<rparr>))))"

text \<open>
  The \<open>while (attempts < maxAttempts)\<close> loop, reading its random numbers from \<open>draws\<close>.
  It returns the final variables and the draws it has not read. The value is \<open>None\<close>
  when the loop needs more draws than the list holds, or when an iteration does not
  return.
\<close>

fun generateCircles_loop ::
  "(real \<Rightarrow> real) \<Rightarrow> options \<Rightarrow> bool list list \<Rightarrow> real list \<Rightarrow> packState
     \<Rightarrow> (js_error + packState \<times> real list) option" where
  "generateCircles_loop fl opts luminanceMap draws st =
     (if ps_attempts st < o_maxAttempts opts
      then (case draws of
              random1 # random2 # random3 # rest \<Rightarrow>
                (case loopBody fl opts luminanceMap random1 random2 random3 st of
                   None \<Rightarrow> None
                 | Some (Inl e) \<Rightarrow> Some (Inl e)
                 | Some (Inr st') \<Rightarrow> generateCircles_loop fl opts luminanceMap rest st')
            | _ \<Rightarrow> None)
      else Some (Inr (st, draws)))"

text \<open>The variables with which \<open>_generateCircles\<close> enters the loop.\<close>

definition initialState :: "options \<Rightarrow> packState" where
  "initialState opts = \<lparr>ps_circles = [], ps_attempts = 0, ps_currentMaxRadius = o_maxRadius opts\<rparr>"

definition generateCircles_run ::
  "(real \<Rightarrow> real) \<Rightarrow> options \<Rightarrow> bool list list \<Rightarrow> real list
     \<Rightarrow> (js_error + packState \<times> real list) option" where
  "generateCircles_run fl opts luminanceMap draws =
     generateCircles_loop fl opts luminanceMap draws (initialState opts)"

text \<open>
  The values of the loop variables at every test of the \<open>while\<close> condition of the same
  loop, in order: the first is the state before the first iteration, and every iteration
  that returns adds the state it leaves.
\<close>

fun generateCircles_states ::
  "(real \<Rightarrow> real) \<Rightarrow> options \<Rightarrow> bool list list \<Rightarrow> real list \<Rightarrow> packState \<Rightarrow> packState list" where
  "generateCircles_states fl opts luminanceMap draws st =
     st # (if ps_attempts st < o_maxAttempts opts
           then (case draws of
                   random1 # random2 # random3 # rest \<Rightarrow>
                     (case loopBody fl opts luminanceMap random1 random2 random3 st of
                        Some (Inr st') \<Rightarrow> generateCircles_states fl opts luminanceMap rest st'
                      | _ \<Rightarrow> [])
                 | _ \<Rightarrow> [])
           else [])"

text \<open>\<open>_generateCircles\<close>: the circles of the final state.\<close>

definition generateCircles ::
  "(real \<Rightarrow> real) \<Rightarrow> options \<Rightarrow> bool list list \<Rightarrow> real list \<Rightarrow> (js_error + circle list) option" where
  "generateCircles fl opts luminanceMap draws =
     (case generateCircles_run fl opts luminanceMap draws of
        None \<Rightarrow> None
      | Some (Inl e) \<Rightarrow> Some (Inl e)
      | Some (Inr (st, rest)) \<Rightarrow> Some (Inr (ps_circles st)))"

text \<open>
  The number of loop iterations of a run that was given \<open>draws\<close> and left \<open>rest\<close>: every
  iteration reads three draws.
\<close>

definition iterations :: "real list \<Rightarrow> real list \<Rightarrow> nat" where
  "iterations draws rest = (length draws - length rest) div 3"

section \<open>Text fitting (utils/text-processor.js)\<close>

text \<open>A JavaScript string as the list of its UTF-16 code units.\<close>

type_synonym js_string = "16 word list"

text \<open>
  The white space of \<open>trim\<close> and of the pattern \<open>\s\<close>: tab, line feed, vertical tab, form
  feed, carriage return, space, no-break space, U+1680, U+2000 to U+200A, the line and
  paragraph separators U+2028 and U+2029, U+202F, U+205F, U+3000 and the byte order mark
  U+FEFF.
\<close>

definition is_space :: "16 word \<Rightarrow> bool" where
  "is_space c =
     (c \<in> set [0x09, 0x0A, 0x0B, 0x0C, 0x0D, 0x20, 0xA0, 0x1680, 0x2028, 0x2029, 0x202F, 0x205F,
                0x3000, 0xFEFF]
      \<or> (0x2000 \<le> c \<and> c \<le> 0x200A))"

definition trim :: "js_string \<Rightarrow> js_string" where
  "trim s = rev (dropWhile is_space (rev (dropWhile is_space s)))"

text \<open>\<open>s.split(/\s+/)\<close>: the pieces between the maximal runs of white space.\<close>

function split_whitespace :: "js_string \<Rightarrow> js_string list" where
  "split_whitespace s =
     (case dropWhile (\<lambda>c. \<not> is_space c) s of
        [] \<Rightarrow> [s]
      | sep # rest \<Rightarrow> takeWhile (\<lambda>c. \<not> is_space c) s # split_whitespace (dropWhile is_space rest))"
  by pat_completeness auto
termination
proof (relation "measure length", goal_cases)
  case 1
  show ?case by simp
next
  case (2 s sep rest)
  have "length (dropWhile is_space rest) \<le> length rest"
    by (rule length_dropWhile_le)
  moreover have "length (sep # rest) \<le> length s"
    unfolding 2[symmetric] by (rule length_dropWhile_le)
  ultimately show ?case by simp
qed

definition splitIntoWords :: "js_string \<Rightarrow> js_string list" where
  "splitIntoWords text = split_whitespace (trim text)"

definition isMultiLine :: "js_string \<Rightarrow> bool" where
  "isMultiLine text = (length (splitIntoWords text) > 1)"

text \<open>
  What the code reads of the result of \<open>measureText\<close>. The two bounding-box fields may
  be absent (\<open>None\<close>). The measurement itself belongs to the canvas library: it is a
  parameter \<open>measureText\<close>, applied to the font size and the font family of the current
  \<open>ctx.font\<close> and to the text.
\<close>

record textMetrics =
  tm_width :: real
  tm_actualBoundingBoxAscent :: "real option"
  tm_actualBoundingBoxDescent :: "real option"

text \<open>\<open>a || d\<close> for a number \<open>a\<close> that may be absent: \<open>undefined\<close> and \<open>0\<close> are falsy.\<close>

fun or_else :: "real option \<Rightarrow> real \<Rightarrow> real" where
  "or_else None d = d"
| "or_else (Some v) d = (if v = 0 then d else v)"

text \<open>
  The measurement of one pass of the \<open>do\<close> loop and its test
  \<open>textWidth <= maxWidth && textHeight <= maxHeight\<close>. The first case is
  \<open>words.length > 1\<close>; \<open>Math.max(...)\<close> of the word widths is a fold of \<open>max\<close>.
\<close>

definition textFits ::
  "(real \<Rightarrow> string \<Rightarrow> js_string \<Rightarrow> textMetrics) \<Rightarrow> js_string \<Rightarrow> js_string list \<Rightarrow> string
     \<Rightarrow> real \<Rightarrow> real \<Rightarrow> real \<Rightarrow> bool" where
  "textFits measureText text words fontFamily maxWidth maxHeight adjustedFontSize =
     (let (textWidth, textHeight) =
            (case words of
               w1 # w2 # ws \<Rightarrow>
                 (fold max (map (\<lambda>word. tm_width (measureText adjustedFontSize fontFamily word)) (w2 # ws))
                    (tm_width (measureText adjustedFontSize fontFamily w1)),
                  (let lineHeight = adjustedFontSize * 1.2 in real (length words) * lineHeight))
             | _ \<Rightarrow>
                 (let textMetrics = measureText adjustedFontSize fontFamily text
                  in (tm_width textMetrics,
                      or_else (tm_actualBoundingBoxAscent textMetrics) (adjustedFontSize * 0.7)
                      + or_else (tm_actualBoundingBoxDescent textMetrics) (adjustedFontSize * 0.3))))
      in textWidth \<le> maxWidth \<and> textHeight \<le> maxHeight)"

text \<open>
  The \<open>do { ... } while (adjustedFontSize > 20)\<close> loop, \<open>fits\<close> being the test of one pass:
  \<open>break\<close> when the size fits, else multiply by 0.95 and go on while the size is above 20.
\<close>

function fontSizeLoop :: "(real \<Rightarrow> bool) \<Rightarrow> real \<Rightarrow> real" where
  "fontSizeLoop fits adjustedFontSize =
     (if fits adjustedFontSize then adjustedFontSize
      else if adjustedFontSize * 0.95 > 20 then fontSizeLoop fits (adjustedFontSize * 0.95)
      else adjustedFontSize * 0.95)"
  by pat_completeness auto
termination
proof (relation "measure (\<lambda>(fits, s). nat \<lfloor>s\<rfloor>)", goal_cases)
  case 1
  show ?case by simp
next
  case (2 fits s)
  then have "s * 0.95 + 1 \<le> s" and "20 \<le> s" by simp_all
  then have "\<lfloor>s * 0.95\<rfloor> + 1 \<le> \<lfloor>s\<rfloor>" and "20 \<le> \<lfloor>s\<rfloor>"
    by (linarith, simp add: le_floor_iff)
  then show ?case by simp
qed

text \<open>The sizes that the same loop measures, in order: one per pass.\<close>

function measuredSizes :: "(real \<Rightarrow> bool) \<Rightarrow> real \<Rightarrow> real list" where
  "measuredSizes fits adjustedFontSize =
     (if fits adjustedFontSize then [adjustedFontSize]
      else if adjustedFontSize * 0.95 > 20
           then adjustedFontSize # measuredSizes fits (adjustedFontSize * 0.95)
      else [adjustedFontSize])"
  by pat_completeness auto
termination
proof (relation "measure (\<lambda>(fits, s). nat \<lfloor>s\<rfloor>)", goal_cases)
  case 1
  show ?case by simp
next
  case (2 fits s)
  then have "s * 0.95 + 1 \<le> s" and "20 \<le> s" by simp_all
  then have "\<lfloor>s * 0.95\<rfloor> + 1 \<le> \<lfloor>s\<rfloor>" and "20 \<le> \<lfloor>s\<rfloor>"
    by (linarith, simp add: le_floor_iff)
  then show ?case by simp
qed

definition calculateOptimalFontSize ::
  "(real \<Rightarrow> string \<Rightarrow> js_string \<Rightarrow> textMetrics) \<Rightarrow> js_string \<Rightarrow> real \<Rightarrow> real \<Rightarrow> real \<Rightarrow> string
     \<Rightarrow> real" where
  "calculateOptimalFontSize measureText text maxWidth maxHeight initialFontSize fontFamily =
     (let words = splitIntoWords text
      in fontSizeLoop (textFits measureText text words fontFamily maxWidth maxHeight) initialFontSize)"

section \<open>The palette catalog (utils/color-palettes.js)\<close>

record palette =
  p_name :: string
  p_description :: string
  p_onColor :: string
  p_offColor :: string
  p_targetDeficiency :: string

text \<open>The own properties of the object literal \<open>COLOR_PALETTES\<close>, in source order.\<close>

definition COLOR_PALETTES :: "(string \<times> palette) list" where
  "COLOR_PALETTES =
     [(''default'',
       \<lparr>p_name = ''Default Orange/Cyan'',
        p_description = ''Good general contrast for most color vision types'',
        p_onColor = ''#FF6B35'', p_offColor = ''#4ECDC4'', p_targetDeficiency = ''general''\<rparr>),
      (''protanopia'',
       \<lparr>p_name = ''Protanopia (Red-blind) Test'',
        p_description = ''Optimized for testing red color blindness'',
        p_onColor = ''#8B0000'', p_offColor = ''#90EE90'', p_targetDeficiency = ''protanopia''\<rparr>),
      (''deuteranopia'',
       \<lparr>p_name = ''Deuteranopia (Green-blind) Test'',
        p_description = ''Optimized for testing green color blindness'',
        p_onColor = ''#D2691E'', p_offColor = ''#6B8E23'', p_targetDeficiency = ''deuteranopia''\<rparr>),
      (''tritanopia'',
       \<lparr>p_name = ''Tritanopia (Blue-blind) Test'',
        p_description = ''Optimized for testing blue color blindness'',
        p_onColor = ''#FFD700'', p_offColor = ''#4169E1'', p_targetDeficiency = ''tritanopia''\<rparr>),
      (''high-contrast-red'',
       \<lparr>p_name = ''High Contrast Red/Green'',
        p_description = ''Maximum contrast red/green combination'',
        p_onColor = ''#B22222'', p_offColor = ''#32CD32'', p_targetDeficiency = ''red-green''\<rparr>),
      (''high-contrast-blue'',
       \<lparr>p_name = ''High Contrast Blue/Yellow'',
        p_description = ''Maximum contrast blue/yellow combination'',
        p_onColor = ''#000080'', p_offColor = ''#FFFF00'', p_targetDeficiency = ''blue-yellow''\<rparr>),
      (''subtle-red-green'',
       \<lparr>p_name = ''Subtle Red/Green'',
        p_description = ''Subtle red-green difference for mild deficiencies'',
        p_onColor = ''#CD5C5C'', p_offColor = ''#228B22'', p_targetDeficiency = ''mild-red-green''\<rparr>),
      (''subtle-brown-green'',
       \<lparr>p_name = ''Subtle Brown/Green'',
        p_description = ''Brown-green combination often confused by color blind individuals'',
        p_onColor = ''#A0522D'', p_offColor = ''#556B2F'', p_targetDeficiency = ''brown-green-confusion''\<rparr>),
      (''monochrome'',
       \<lparr>p_name = ''Monochrome Compatible'',
        p_description = ''High luminance contrast for monochromacy'',
        p_onColor = ''#2F2F2F'', p_offColor = ''#D3D3D3'', p_targetDeficiency = ''monochromacy''\<rparr>),
      (''scientific-red'',
       \<lparr>p_name = ''Scientific Red Standard'',
        p_description = ''Standard red used in color vision research'',
        p_onColor = ''#FF0000'', p_offColor = ''#00FF00'', p_targetDeficiency = ''research-standard''\<rparr>),
      (''ishihara-classic'',
       \<lparr>p_name = ''Classic Ishihara Colors'',
        p_description = ''Colors inspired by traditional Ishihara plates'',
        p_onColor = ''#8B4513'', p_offColor = ''#9ACD32'', p_targetDeficiency = ''classic-test''\<rparr>)]"

text \<open>
  \<open>COLOR_PALETTES\<close> is an object literal, so a property read \<open>COLOR_PALETTES[key]\<close> that
  finds no own property goes on to \<open>Object.prototype\<close>. What such a read returns is a
  palette object, a member of \<open>Object.prototype\<close> (a function, or for \<open>__proto__\<close> the
  prototype object itself; none has a property \<open>onColor\<close> or \<open>offColor\<close>), or
  \<open>undefined\<close> (\<open>None\<close>).
\<close>

datatype js_object = PaletteObject palette | ObjectPrototypeMember

definition objectPrototypeKeys :: "string list" where
  "objectPrototypeKeys =
     [''constructor'', ''__defineGetter__'', ''__defineSetter__'', ''hasOwnProperty'',
      ''__lookupGetter__'', ''__lookupSetter__'', ''isPrototypeOf'', ''propertyIsEnumerable'',
      ''toString'', ''valueOf'', ''__proto__'', ''toLocaleString'']"

definition getProperty :: "string \<Rightarrow> js_object option" where
  "getProperty key =
     (case map_of COLOR_PALETTES key of
        Some p \<Rightarrow> Some (PaletteObject p)
      | None \<Rightarrow> if key \<in> set objectPrototypeKeys then Some ObjectPrototypeMember else None)"

text \<open>
  \<open>toLowerCase\<close> on the characters of ASCII. Strings are byte strings here, and the
  bytes of a character beyond ASCII are left as they are.
\<close>

definition toLowerCase :: "string \<Rightarrow> string" where
  "toLowerCase s =
     map (\<lambda>c. case map_of (zip ''ABCDEFGHIJKLMNOPQRSTUVWXYZ'' ''abcdefghijklmnopqrstuvwxyz'') c of
                Some l \<Rightarrow> l
              | None \<Rightarrow> c) s"

text \<open>
  \<open>getPalette\<close>: \<open>palette || null\<close> is \<open>null\<close> (\<open>None\<close>) only for \<open>undefined\<close>, every object
  and function being truthy.
\<close>

definition getPalette :: "string \<Rightarrow> js_object option" where
  "getPalette paletteName = getProperty (toLowerCase paletteName)"

text \<open>\<open>isValidPalette\<close> asks \<open>hasOwnProperty\<close>: own properties only.\<close>

definition isValidPalette :: "string \<Rightarrow> bool" where
  "isValidPalette paletteName = (map_of COLOR_PALETTES (toLowerCase paletteName) \<noteq> None)"

text \<open>The reads \<open>palette.onColor\<close> and \<open>palette.offColor\<close>.\<close>

fun onColorOf :: "js_object \<Rightarrow> js_value" where
  "onColorOf (PaletteObject p) = Str (p_onColor p)"
| "onColorOf ObjectPrototypeMember = Undefined"

fun offColorOf :: "js_object \<Rightarrow> js_value" where
  "offColorOf (PaletteObject p) = Str (p_offColor p)"
| "offColorOf ObjectPrototypeMember = Undefined"

text \<open>
  The constructor of \<open>ColorVisionGenerator\<close>. Its argument is the merged object
  \<open>{ ...DEFAULT_OPTIONS, ...options }\<close>; its result is \<open>this.options\<close> and the lines
  written by \<open>console.warn\<close>. A palette option that is \<open>null\<close> or the empty string is
  falsy and skips the lookup.
\<close>

definition newColorVisionGenerator :: "options \<Rightarrow> options \<times> string list" where
  "newColorVisionGenerator merged =
     (case o_palette merged of
        None \<Rightarrow> (merged, [])
      | Some paletteName \<Rightarrow>
          if paletteName = [] then (merged, [])
          else (case getPalette paletteName of
                  Some palette \<Rightarrow>
                    (merged\<lparr>o_onColor := onColorOf palette, o_offColor := offColorOf palette\<rparr>, [])
                | None \<Rightarrow>
                    (merged,
                     [''Warning: Palette \"'' @ paletteName @ ''\" not found. Using default colors.''])))"

section \<open>Predicates of the properties\<close>

text \<open>A mask of \<open>h\<close> rows of \<open>w\<close> cells, and a mask whose cells all hold \<open>b\<close>.\<close>

definition maskShape :: "bool list list \<Rightarrow> nat \<Rightarrow> nat \<Rightarrow> bool" where
  "maskShape luminanceMap w h =
     (length luminanceMap = h \<and> (\<forall>row \<in> set luminanceMap. length row = w))"

definition maskAll :: "bool \<Rightarrow> bool list list \<Rightarrow> bool" where
  "maskAll b luminanceMap = (\<forall>row \<in> set luminanceMap. \<forall>v \<in> set row. v = b)"

text \<open>What the sampling loops keep true of \<open>(inPixels, totalPixels)\<close>.\<close>

definition countsOk :: "bool list list \<Rightarrow> nat \<times> nat \<Rightarrow> bool" where
  "countsOk luminanceMap acc =
     (fst acc \<le> snd acc \<and> (maskAll False luminanceMap \<longrightarrow> fst acc = 0)
        \<and> (maskAll True luminanceMap \<longrightarrow> fst acc = snd acc))"

text \<open>The distance between the centres of two circles.\<close>

definition distance :: "circle \<Rightarrow> circle \<Rightarrow> real" where
  "distance a b = sqrt ((circ_x a - circ_x b)\<^sup>2 + (circ_y a - circ_y b)\<^sup>2)"

text \<open>Any two circles at different positions of the list keep the padded distance.\<close>

definition nonOverlapping :: "real \<Rightarrow> circle list \<Rightarrow> bool" where
  "nonOverlapping padding circles =
     (\<forall>i < length circles. \<forall>j < length circles.
        i \<noteq> j \<longrightarrow> distance (circles ! i) (circles ! j)
                    \<ge> circ_radius (circles ! i) + circ_radius (circles ! j) + padding)"

text \<open>
  A circle inside the canvas less its margin and, in circular mode, inside the disc of
  radius \<open>min(width, height) / 2 - margin\<close> around the centre of the canvas.
\<close>

definition distanceFromCenter :: "options \<Rightarrow> circle \<Rightarrow> real" where
  "distanceFromCenter opts c =
     sqrt ((circ_x c - o_width opts / 2)\<^sup>2 + (circ_y c - o_height opts / 2)\<^sup>2)"

definition withinBounds :: "options \<Rightarrow> circle \<Rightarrow> bool" where
  "withinBounds opts c =
     (circ_x c - circ_radius c \<ge> o_margin opts
      \<and> circ_x c + circ_radius c \<le> o_width opts - o_margin opts
      \<and> circ_y c - circ_radius c \<ge> o_margin opts
      \<and> circ_y c + circ_radius c \<le> o_height opts - o_margin opts
      \<and> (o_circular opts \<longrightarrow>
           distanceFromCenter opts c + circ_radius c
             \<le> min (o_width opts) (o_height opts) / 2 - o_margin opts))"

text \<open>
  What one iteration does to the counter, from the state \<open>s\<close> at the loop test before it
  to the state \<open>s'\<close> at the next test. The iteration runs because the counter is below
  \<open>maxAttempts\<close>. If it places a circle, it appends it and sets the counter to 0. If it
  places none, it adds 1 to the counter; if the counter is then above 1000 and the radius
  ceiling above \<open>minRadius + 1\<close>, the annealing step multiplies the ceiling by 0.98 and
  sets the counter to 0.
\<close>

definition counterStep :: "options \<Rightarrow> packState \<Rightarrow> packState \<Rightarrow> bool" where
  "counterStep opts s s' =
     (ps_attempts s < o_maxAttempts opts
      \<and> (if ps_circles s' = ps_circles s
          then (if 1000 < ps_attempts s + 1 \<and> o_minRadius opts + 1 < ps_currentMaxRadius s
                then ps_attempts s' = 0 \<and> ps_currentMaxRadius s' = ps_currentMaxRadius s * 0.98
                else ps_attempts s' = ps_attempts s + 1
                     \<and> ps_currentMaxRadius s' = ps_currentMaxRadius s)
          else butlast (ps_circles s') = ps_circles s
               \<and> ps_attempts s' = 0 \<and> ps_currentMaxRadius s' = ps_currentMaxRadius s))"

section \<open>Concrete inputs\<close>

text \<open>
  No rounding: the arithmetic of the sampling loops is exact. In the runs below that
  sample a circle, the radius is 8 and the centre has whole coordinates: the step is 1,
  every value in the sampling loops is a whole number below 1000, and the rounding to
  the nearest double leaves all of them as they are.
\<close>

definition exact :: "real \<Rightarrow> real" where
  "exact v = v"

text \<open>A canvas of two pixels, one black and one white.\<close>

definition demo_canvas :: canvas where
  "demo_canvas = \<lparr>cv_width = 2, cv_height = 1, cv_data = [0, 0, 0, 255, 255, 255, 255, 255]\<rparr>"

text \<open>
  A canvas of 40 by 40 without margin, circles of radius 8 only, and a loop that gives
  up at the first failure; with it a mask without foreground.
\<close>

definition demo_opts :: options where
  "demo_opts = DEFAULT_OPTIONS\<lparr>o_width := 40, o_height := 40, o_margin := 0, o_minRadius := 8,
      o_maxRadius := 8, o_maxAttempts := 1\<rparr>"

definition demo_mask :: "bool list list" where
  "demo_mask = replicate 40 (replicate 40 False)"

text \<open>
  Circular mode on the default canvas, circles of radius 8 only, a loop that gives up at
  the first failure; with it a mask of 800 by 800 without foreground.
\<close>

definition circ_opts :: options where
  "circ_opts = DEFAULT_OPTIONS\<lparr>o_circular := True, o_minRadius := 8, o_maxRadius := 8,
      o_maxAttempts := 1\<rparr>"

definition circ_mask :: "bool list list" where
  "circ_mask = replicate 800 (replicate 800 False)"



text \<open>The text \<open>8\<close>, and the text \<open>A B\<close> with a no-break space for the blank.\<close>

definition text_8 :: js_string where
  "text_8 = [0x38]"

definition text_A_nbsp_B :: js_string where
  "text_A_nbsp_B = [0x41, 0xA0, 0x42]"

text \<open>
  A measurement for which every character is as wide as the font size and the bounding
  box is not reported, so that the height falls back to the font size.
\<close>

definition demo_measure :: "real \<Rightarrow> string \<Rightarrow> js_string \<Rightarrow> textMetrics" where
  "demo_measure fontSize fontFamily text =
     \<lparr>tm_width = fontSize * real (length text), tm_actualBoundingBoxAscent = None,
      tm_actualBoundingBoxDescent = None\<rparr>"

text \<open>
  The small canvas again, with a radius between 6.875 and 8, so that the ceiling 8 is
  reduced once, and with \<open>maxAttempts = 1002\<close>; with it draws for one failure, one
  placement of a circle of radius 8 around (10, 10), and failures from then on.
\<close>

definition anneal_opts :: options where
  "anneal_opts = demo_opts\<lparr>o_minRadius := 6.875, o_maxAttempts := 1002\<rparr>"

definition anneal_draws :: "real list" where
  "anneal_draws = [0, 0, 0, 1 / 4, 1 / 4, 1] @ replicate 6009 0"

text \<open>The small canvas with circles of radius 0 only.\<close>

definition zero_opts :: options where
  "zero_opts = demo_opts\<lparr>o_minRadius := 0, o_maxRadius := 0\<rparr>"

text \<open>A mask of 40 by 40 that is all foreground.\<close>

definition full_mask :: "bool list list" where
  "full_mask = replicate 40 (replicate 40 True)"

section \<open>Luminance: theorems\<close>

lemma createLuminanceMap_nth:
  assumes "y < cv_height cv" "x < cv_width cv"
  shows "createLuminanceMap cv t ! y ! x
           = luminanceCell (cv_data cv) ((y * cv_width cv + x) * 4) t"
  using assms by (simp add: createLuminanceMap_def)

lemma pixel_index_in_range:
  assumes "canvas_ok cv" "y < cv_height cv" "x < cv_width cv"
  shows "(y * cv_width cv + x) * 4 + 2 < length (cv_data cv)"
proof -
  have "y * cv_width cv + x < (y + 1) * cv_width cv"
    using assms(3) by simp
  also have "\<dots> \<le> cv_height cv * cv_width cv"
    using assms(2) by (intro mult_le_mono1) simp
  finally have "y * cv_width cv + x + 1 \<le> cv_height cv * cv_width cv"
    by simp
  then have "(y * cv_width cv + x + 1) * 4 \<le> cv_height cv * cv_width cv * 4"
    by (intro mult_le_mono1)
  then show ?thesis
    using assms(1) by (simp add: canvas_ok_def algebra_simps)
qed

lemma getLuminance_spec_Y:
  "getLuminance (real (unat r)) (real (unat g)) (real (unat b)) = spec_Y r g b"
  by (simp add: getLuminance_def spec_Y_def sRGBtoLin_def spec_lin_def)

text \<open>
  Claim C6. For every pixel of a canvas and every threshold, the cell of the luminance
  map at that pixel equals \<open>Y < threshold\<close>, where \<open>Y\<close> is the reference luminance of the
  pixel's 8-bit channels; the map has one row per canvas row and one cell per column.
  A pixel whose luminance is below the threshold (a dark one) is therefore foreground.
\<close>

theorem luminance_map_reference:
  assumes "canvas_ok cv" "y < cv_height cv" "x < cv_width cv"
  shows "createLuminanceMap cv threshold ! y ! x
           = spec_mask_value (pixel_r cv x y) (pixel_g cv x y) (pixel_b cv x y) threshold
         \<and> length (createLuminanceMap cv threshold) = cv_height cv
         \<and> length (createLuminanceMap cv threshold ! y) = cv_width cv"
proof -
  have rng: "(y * cv_width cv + x) * 4 + 2 < length (cv_data cv)"
    using assms by (rule pixel_index_in_range)
  have "createLuminanceMap cv threshold ! y ! x
          = luminanceCell (cv_data cv) ((y * cv_width cv + x) * 4) threshold"
    using assms(2,3) by (rule createLuminanceMap_nth)
  also have "\<dots> = spec_mask_value (pixel_r cv x y) (pixel_g cv x y) (pixel_b cv x y) threshold"
    unfolding luminanceCell_def getLuminance_spec_Y spec_mask_value_def
      pixel_r_def pixel_g_def pixel_b_def
    using rng by simp
  finally show ?thesis
    using assms(2) by (simp add: createLuminanceMap_def)
qed

text \<open>The reference definition at the white and at the black pixel of the small canvas.\<close>

theorem luminance_map_reference_witness:
  "canvas_ok demo_canvas \<and> (0::nat) < cv_height demo_canvas \<and> (1::nat) < cv_width demo_canvas
   \<and> createLuminanceMap demo_canvas 0.5 ! 0 ! 1 = spec_mask_value 255 255 255 0.5
   \<and> spec_mask_value 255 255 255 0.5 = False
   \<and> createLuminanceMap demo_canvas 0.5 ! 0 ! 0 = spec_mask_value 0 0 0 0.5
   \<and> spec_mask_value 0 0 0 0.5 = True"
  using luminance_map_reference[of demo_canvas 0 1 "0.5"] luminance_map_reference[of demo_canvas 0 0 "0.5"]
  by (simp add: canvas_ok_def demo_canvas_def spec_mask_value_def spec_Y_def spec_lin_def
      pixel_r_def pixel_g_def pixel_b_def)

text \<open>
  Claim C7. For a fixed canvas and thresholds \<open>t1 \<le> t2\<close>, every pixel that is foreground
  in the map made with \<open>t1\<close> is foreground in the map made with \<open>t2\<close>.
\<close>

theorem luminance_monotone:
  assumes "t1 \<le> t2" "y < cv_height cv" "x < cv_width cv" "createLuminanceMap cv t1 ! y ! x"
  shows "createLuminanceMap cv t2 ! y ! x"
  using assms by (auto simp: createLuminanceMap_nth luminanceCell_def split: if_splits)

lemma demo_canvas_map: "createLuminanceMap demo_canvas t = [[0 < t, 1 < t]]"
  by (simp add: demo_canvas_def createLuminanceMap_def luminanceCell_def getLuminance_def
      sRGBtoLin_def upt_rec)

text \<open>The black pixel is foreground at threshold 0.3 and stays so at 0.5.\<close>

theorem luminance_monotone_witness:
  "(0.3::real) \<le> 0.5 \<and> (0::nat) < cv_height demo_canvas \<and> (0::nat) < cv_width demo_canvas
   \<and> createLuminanceMap demo_canvas 0.3 ! 0 ! 0 \<and> createLuminanceMap demo_canvas 0.5 ! 0 ! 0"
proof -
  have pre: "(0.3::real) \<le> 0.5" "(0::nat) < cv_height demo_canvas" "(0::nat) < cv_width demo_canvas"
    "createLuminanceMap demo_canvas 0.3 ! 0 ! 0"
    by (simp_all add: demo_canvas_map) (simp_all add: demo_canvas_def)
  from luminance_monotone[OF pre] pre show ?thesis by simp
qed


section \<open>Sampling and colour decision: theorems\<close>

lemma for_loop_exit: "hi < d \<Longrightarrow> for_loop fl body hi step d s = Some (Inr s)"
  by (subst for_loop.simps) simp

text \<open>A property of the state that the body keeps is kept by the loop, when it returns.\<close>

lemma for_loop_invariant_aux:
  assumes "for_loop fl body hi step d s = Some r"
  shows "\<forall>s'. r = Inr s' \<longrightarrow> I s
           \<longrightarrow> (\<forall>d s s'. I s \<longrightarrow> body d s = Some (Inr s') \<longrightarrow> I s') \<longrightarrow> I s'"
proof (rule for_loop.raw_induct[where P = "\<lambda>fl body hi step d s r.
          \<forall>s'. r = Inr s' \<longrightarrow> I s
            \<longrightarrow> (\<forall>d s s'. I s \<longrightarrow> body d s = Some (Inr s') \<longrightarrow> I s') \<longrightarrow> I s'", OF _ assms],
       goal_cases)
  case (1 f fl body hi step d s r)
  show ?case
  proof (intro allI impI)
    fix s'
    assume r: "r = Inr s'" and inv: "I s"
      and body: "\<forall>d s s'. I s \<longrightarrow> body d s = Some (Inr s') \<longrightarrow> I s'"
    show "I s'"
    proof (cases "d \<le> hi")
      case False
      with 1(2) r inv show ?thesis by simp
    next
      case True
      with 1(2) r obtain s1 where b: "body d s = Some (Inr s1)"
        and rec: "f fl body hi step (fl (d + step)) s1 = Some (Inr s')"
        by (auto split: option.splits sum.splits)
      from body inv b have "I s1" by blast
      with 1(1)[OF rec] body show ?thesis by blast
    qed
  qed
qed

lemma for_loop_invariant:
  assumes "for_loop fl body hi step d s = Some (Inr s')"
    and "I s"
    and "\<forall>d s s'. I s \<longrightarrow> body d s = Some (Inr s') \<longrightarrow> I s'"
  shows "I s'"
  using for_loop_invariant_aux[OF assms(1), of I] assms(2,3) by blast

text \<open>A loop whose counter does not move and whose body does not raise never returns.\<close>

lemma for_loop_stuck_aux:
  assumes "for_loop fl body hi step d s = Some r"
  shows "\<not> (fl (d + step) = d \<and> d \<le> hi \<and> (\<forall>d s e. body d s \<noteq> Some (Inl e)))"
proof (rule for_loop.raw_induct[where P = "\<lambda>fl body hi step d s r.
          \<not> (fl (d + step) = d \<and> d \<le> hi \<and> (\<forall>d s e. body d s \<noteq> Some (Inl e)))", OF _ assms],
       goal_cases)
  case (1 f fl body hi step d s r)
  show ?case
  proof
    assume a: "fl (d + step) = d \<and> d \<le> hi \<and> (\<forall>d s e. body d s \<noteq> Some (Inl e))"
    with 1(2) obtain s' where "f fl body hi step (fl (d + step)) s' = Some r"
      by (auto split: option.splits sum.splits)
    with a have "f fl body hi step d s' = Some r" by simp
    from 1(1)[OF this] a show False by simp
  qed
qed

lemma for_loop_stuck:
  assumes "fl (d + step) = d" "d \<le> hi" "\<forall>d s e. body d s \<noteq> Some (Inl e)"
  shows "for_loop fl body hi step d s = None"
proof (cases "for_loop fl body hi step d s")
  case (Some r)
  from for_loop_stuck_aux[OF this] assms show ?thesis by simp
qed simp

lemma luminanceAt_in_shape:
  assumes "maskShape m w h" "0 \<le> py" "real_of_int py < real h" "0 \<le> px" "real_of_int px < real w"
  shows "luminanceAt m py px = Inr (m ! nat py ! nat px)"
    and "m ! nat py \<in> set m" and "m ! nat py ! nat px \<in> set (m ! nat py)"
proof -
  have py: "nat py < length m"
    using assms(1,2,3) by (simp add: maskShape_def nat_less_iff)
  then show row: "m ! nat py \<in> set m" by simp
  with assms(1) have "length (m ! nat py) = w" by (simp add: maskShape_def)
  with assms(4,5) have px: "nat px < length (m ! nat py)" by (simp add: nat_less_iff)
  then show "m ! nat py ! nat px \<in> set (m ! nat py)" by simp
  from py px show "luminanceAt m py px = Inr (m ! nat py ! nat px)"
    by (simp add: luminanceAt_def)
qed

lemma samplePixel_counts:
  assumes "maskShape m w h" "countsOk m acc"
  shows "\<exists>acc'. samplePixel fl x y radius m (real w) (real h) dy dx acc = Inr acc' \<and> countsOk m acc'"
proof (cases "fl (fl (dx * dx) + fl (dy * dy)) \<le> fl (radius * radius)
               \<and> 0 \<le> \<lfloor>fl (x + dx)\<rfloor> \<and> real_of_int \<lfloor>fl (x + dx)\<rfloor> < real w
               \<and> 0 \<le> \<lfloor>fl (y + dy)\<rfloor> \<and> real_of_int \<lfloor>fl (y + dy)\<rfloor> < real h")
  case False
  with assms(2) show ?thesis
    by (auto simp: samplePixel_def Let_def split: prod.splits)
next
  case True
  define px where "px = \<lfloor>fl (x + dx)\<rfloor>"
  define py where "py = \<lfloor>fl (y + dy)\<rfloor>"
  note l = luminanceAt_in_shape[OF assms(1), of py px]
  from True have at: "luminanceAt m py px = Inr (m ! nat py ! nat px)"
    and row: "m ! nat py \<in> set m"
    and cell: "m ! nat py ! nat px \<in> set (m ! nat py)"
    using l by (simp_all add: px_def py_def)
  have f: "maskAll False m \<Longrightarrow> \<not> m ! nat py ! nat px"
    and t: "maskAll True m \<Longrightarrow> m ! nat py ! nat px"
    using row cell unfolding maskAll_def by blast+
  obtain i t where acc: "acc = (i, t)" by (cases acc)
  from True at have "samplePixel fl x y radius m (real w) (real h) dy dx acc
      = Inr (if m ! nat py ! nat px then i + 1 else i, t + 1)"
    by (simp add: samplePixel_def acc px_def py_def)
  moreover have "countsOk m (if m ! nat py ! nat px then i + 1 else i, t + 1)"
    using assms(2) f t by (auto simp: countsOk_def acc)
  ultimately show ?thesis by blast
qed

lemma samplePixel_no_error:
  assumes "maskShape m w h"
  shows "samplePixel fl x y radius m (real w) (real h) dy dx acc \<noteq> Inl e"
  using samplePixel_counts[OF assms, of "(0, 0)" fl x y radius dy dx]
    luminanceAt_in_shape(1)[OF assms]
  by (auto simp: samplePixel_def Let_def split: prod.splits sum.splits)

text \<open>
  On a mask of the declared shape, the counts that the sampling returns have
  \<open>inPixels \<le> totalPixels\<close>, with \<open>inPixels = 0\<close> on a mask without foreground and
  \<open>inPixels = totalPixels\<close> on a mask that is all foreground.
\<close>

lemma samplePixels_counts:
  assumes "samplePixels fl x y radius m (real w) (real h) = Some (Inr acc)"
    and "maskShape m w h"
  shows "countsOk m acc"
proof -
  have inner: "\<forall>dx a a'. countsOk m a
      \<longrightarrow> Some (samplePixel fl x y radius m (real w) (real h) dy dx a) = Some (Inr a')
      \<longrightarrow> countsOk m a'" for dy
    using samplePixel_counts[OF assms(2)] by (metis Inr_inject option.inject)
  have outer: "\<forall>dy a a'. countsOk m a
      \<longrightarrow> for_loop fl (\<lambda>dx acc. Some (samplePixel fl x y radius m (real w) (real h) dy dx acc))
            radius (fl (radius / max 8 radius)) (- radius) a = Some (Inr a')
      \<longrightarrow> countsOk m a'"
    using for_loop_invariant[where I = "countsOk m", OF _ _ inner] by blast
  have start: "countsOk m (0, 0)" by (simp add: countsOk_def)
  from assms(1) show ?thesis
    unfolding samplePixels_def Let_def
    by (rule for_loop_invariant[where I = "countsOk m", OF _ start outer])
qed

text \<open>
  What \<open>determineCircleColor\<close> returns, when it returns, on a mask of the declared shape
  and with colours that are not \<open>null\<close>: \<open>null\<close> exactly when \<open>totalPixels = 0\<close> or the
  ratio lies strictly between \<open>tolerance\<close> and \<open>1 - tolerance\<close>, otherwise \<open>onColor\<close> for
  a ratio above 0.5 and \<open>offColor\<close> else; a colour returned on a mask without foreground
  is \<open>offColor\<close>, on a mask that is all foreground \<open>onColor\<close>.
\<close>

lemma determineCircleColor_returned:
  assumes "determineCircleColor fl x y radius luminanceMap options = Some (Inr color)"
    and "maskShape luminanceMap w h"
    and "co_mapWidth options = real w" and "co_mapHeight options = real h"
    and "co_onColor options \<noteq> Null" and "co_offColor options \<noteq> Null"
  shows "\<exists>inPixels totalPixels.
           samplePixels fl x y radius luminanceMap (co_mapWidth options) (co_mapHeight options)
             = Some (Inr (inPixels, totalPixels))
         \<and> (color = Null \<longleftrightarrow>
              totalPixels = 0
              \<or> (co_tolerance options < real inPixels / real totalPixels
                  \<and> real inPixels / real totalPixels < 1 - co_tolerance options))
         \<and> (color \<noteq> Null \<longrightarrow>
              color = (if real inPixels / real totalPixels > 0.5
                       then co_onColor options else co_offColor options))
         \<and> (maskAll False luminanceMap \<longrightarrow> color \<noteq> Null \<longrightarrow> color = co_offColor options)
         \<and> (maskAll True luminanceMap \<longrightarrow> color \<noteq> Null \<longrightarrow> color = co_onColor options)"
proof -
  from assms(1) obtain i t where
    run: "samplePixels fl x y radius luminanceMap (real w) (real h) = Some (Inr (i, t))"
    and color: "color =
     (if t = 0 then Null
      else if real i / real t > co_tolerance options \<and> real i / real t < 1 - co_tolerance options
           then Null
      else if real i / real t > 0.5 then co_onColor options else co_offColor options)"
    by (auto simp: determineCircleColor_def assms(3,4) Let_def split: option.splits sum.splits)
  from samplePixels_counts[OF run assms(2)] have ok: "countsOk luminanceMap (i, t)" .
  have null: "color = Null \<longleftrightarrow>
      t = 0 \<or> (co_tolerance options < real i / real t \<and> real i / real t < 1 - co_tolerance options)"
    using assms(5,6) by (auto simp: color)
  have val: "color \<noteq> Null \<longrightarrow>
      color = (if real i / real t > 0.5 then co_onColor options else co_offColor options)"
    by (auto simp: color)
  have off: "maskAll False luminanceMap \<longrightarrow> color \<noteq> Null \<longrightarrow> color = co_offColor options"
    using ok by (auto simp: color countsOk_def)
  have on: "maskAll True luminanceMap \<longrightarrow> color \<noteq> Null \<longrightarrow> color = co_onColor options"
    using ok by (auto simp: color countsOk_def)
  from run null val off on show ?thesis
    unfolding assms(3,4) by blast
qed

text \<open>
  Claim C4 at radius 0. The claim has \<open>determineCircleColor\<close> return \<open>null\<close> or a colour
  for every circle. At radius 0 the step \<open>radius / samples\<close> of both loops is 0 and the
  counter stays at 0: on a mask of the declared shape, and with a rounding that leaves 0
  as it is, the sampling never ends and \<open>determineCircleColor\<close> does not return.
\<close>

theorem determineCircleColor_radius_zero:
  assumes "fl 0 = 0"
    and "maskShape luminanceMap w h"
    and "co_mapWidth options = real w" and "co_mapHeight options = real h"
  shows "determineCircleColor fl x y 0 luminanceMap options = None"
proof -
  have inner: "for_loop fl (\<lambda>dx acc. Some (samplePixel fl x y 0 luminanceMap (real w) (real h) dy dx acc))
                 0 0 0 acc = None" for dy acc
    using samplePixel_no_error[OF assms(2)] assms(1) by (intro for_loop_stuck) auto
  have "samplePixels fl x y 0 luminanceMap (real w) (real h) = None"
    unfolding samplePixels_def Let_def
    by (subst for_loop.simps) (simp add: inner assms(1))
  then show ?thesis
    by (simp add: determineCircleColor_def assms(3,4))
qed

lemma demo_opts_fields:
  "o_width demo_opts = 40" "o_height demo_opts = 40" "o_margin demo_opts = 0"
  "o_minRadius demo_opts = 8" "o_maxRadius demo_opts = 8" "o_maxAttempts demo_opts = 1"
  "o_circular demo_opts = False" "o_padding demo_opts = 0" "o_tolerance demo_opts = 1 / 10"
  "o_onColor demo_opts = Str ''#FF6B35''" "o_offColor demo_opts = Str ''#4ECDC4''"
  by (simp_all add: demo_opts_def DEFAULT_OPTIONS_def)

lemma demo_mask_shape: "maskShape demo_mask 40 40"
  by (simp add: maskShape_def demo_mask_def)

lemma demo_mask_all_False: "maskAll False demo_mask"
  by (simp add: maskAll_def demo_mask_def)

lemma demo_samples_10: "samplePixels exact 10 10 8 demo_mask 40 40 = Some (Inr (0, 197))"
  by (simp add: samplePixels_def for_loop.simps samplePixel_def luminanceAt_def demo_mask_def
      exact_def)

lemma demo_color_10:
  "determineCircleColor exact 10 10 8 demo_mask (packColorOptions demo_opts)
     = Some (Inr (Str ''#4ECDC4''))"
  by (simp add: determineCircleColor_def packColorOptions_def demo_opts_fields demo_samples_10)

text \<open>The circle of radius 8 around (10, 10) on the mask that is all foreground.\<close>

lemma full_samples_10: "samplePixels exact 10 10 8 full_mask 40 40 = Some (Inr (197, 197))"
  by (simp add: samplePixels_def for_loop.simps samplePixel_def luminanceAt_def full_mask_def
      exact_def)

lemma full_color_10:
  "determineCircleColor exact 10 10 8 full_mask (packColorOptions demo_opts)
     = Some (Inr (Str ''#FF6B35''))"
  by (simp add: determineCircleColor_def packColorOptions_def demo_opts_fields full_samples_10)

section \<open>The packing loop: theorems\<close>

declare generateCircles_loop.simps [simp del] generateCircles_states.simps [simp del]

lemma reduceRadius_circles: "ps_circles (reduceRadius opts st) = ps_circles st"
  by (simp add: reduceRadius_def)

text \<open>What an iteration that returns has done: a circle placed, or a failure counted.\<close>

lemma loopBody_cases:
  assumes "loopBody fl opts m r1 r2 r3 st = Some (Inr st')"
  shows "(\<exists>c. ps_circles st' = ps_circles st @ [c] \<and> ps_attempts st' = 0
              \<and> ps_currentMaxRadius st' = ps_currentMaxRadius st
              \<and> isValidPlacement (circ_x c) (circ_y c) (circ_radius c) (ps_circles st)
                   (packConstraints opts))
         \<or> (ps_circles st' = ps_circles st
             \<and> (if 1000 < ps_attempts st + 1 \<and> o_minRadius opts + 1 < ps_currentMaxRadius st
                 then ps_attempts st' = 0
                      \<and> ps_currentMaxRadius st' = ps_currentMaxRadius st * 0.98
                 else ps_attempts st' = ps_attempts st + 1
                      \<and> ps_currentMaxRadius st' = ps_currentMaxRadius st))"
  using assms
  by (auto simp: loopBody_def Let_def reduceRadius_def split: if_splits option.splits sum.splits)

lemma loopBody_counterStep:
  assumes "loopBody fl opts m r1 r2 r3 st = Some (Inr st')"
    and "ps_attempts st < o_maxAttempts opts"
  shows "counterStep opts st st'"
  using loopBody_cases[OF assms(1)] assms(2)
  by (auto simp: counterStep_def)

lemma loop_induct:
  assumes run: "generateCircles_loop fl opts m draws st = Some (Inr (st', rest))"
    and step: "\<And>s r1 r2 r3 s'. P s \<Longrightarrow> loopBody fl opts m r1 r2 r3 s = Some (Inr s') \<Longrightarrow> P s'"
    and init: "P st"
  shows "P st'"
  using run init step
proof (induction fl opts m draws st rule: generateCircles_loop.induct)
  case (1 fl opts m draws st)
  show ?case
  proof (cases "ps_attempts st < o_maxAttempts opts")
    case False
    with "1.prems" show ?thesis
      by (simp add: generateCircles_loop.simps)
  next
    case True
    with "1.prems"(1) obtain r1 r2 r3 rest0 s1 where
      d: "draws = r1 # r2 # r3 # rest0"
      and b: "loopBody fl opts m r1 r2 r3 st = Some (Inr s1)"
      and r: "generateCircles_loop fl opts m rest0 s1 = Some (Inr (st', rest))"
      by (subst (asm) generateCircles_loop.simps)
         (auto split: list.splits option.splits sum.splits)
    have "P s1" using "1.prems"(2) b by (rule "1.prems"(3))
    with "1.IH"[OF True d refl refl b refl r] "1.prems"(3) show ?thesis by blast
  qed
qed

lemma overlapsExisting_iff:
  "overlapsExisting x y radius padding cs \<longleftrightarrow>
     (\<exists>c \<in> set cs. sqrt ((x - circ_x c) * (x - circ_x c) + (y - circ_y c) * (y - circ_y c))
                       < radius + circ_radius c + padding)"
  by (induction cs) (auto simp: Let_def)

lemma distance_sym: "distance a b = distance b a"
  by (simp add: distance_def power2_commute)

lemma valid_separated:
  assumes "isValidPlacement (circ_x c) (circ_y c) (circ_radius c) cs k" "d \<in> set cs"
  shows "circ_radius c + circ_radius d + c_padding k \<le> distance c d"
proof -
  from assms(1) have "\<not> overlapsExisting (circ_x c) (circ_y c) (circ_radius c) (c_padding k) cs"
    by (simp add: isValidPlacement_def split: if_splits)
  with assms(2) show ?thesis
    by (auto simp: overlapsExisting_iff distance_def power2_eq_square not_less)
qed

lemma nonOverlapping_snoc:
  assumes "nonOverlapping p cs"
    and "\<forall>d \<in> set cs. circ_radius c + circ_radius d + p \<le> distance c d"
  shows "nonOverlapping p (cs @ [c])"
  unfolding nonOverlapping_def
proof (intro allI impI)
  fix i j
  assume i: "i < length (cs @ [c])" and j: "j < length (cs @ [c])" and ne: "i \<noteq> j"
  consider "i < length cs" "j < length cs" | "i = length cs" "j < length cs"
    | "i < length cs" "j = length cs"
    using i j ne by (cases "i < length cs"; cases "j < length cs") auto
  then show "circ_radius ((cs @ [c]) ! i) + circ_radius ((cs @ [c]) ! j) + p
               \<le> distance ((cs @ [c]) ! i) ((cs @ [c]) ! j)"
  proof cases
    case 1
    with assms(1) ne show ?thesis by (simp add: nonOverlapping_def nth_append)
  next
    case 2
    then have "cs ! j \<in> set cs" by simp
    with assms(2) 2 show ?thesis by (simp add: nth_append)
  next
    case 3
    then have "cs ! i \<in> set cs" by simp
    with assms(2) have "circ_radius c + circ_radius (cs ! i) + p \<le> distance c (cs ! i)" by blast
    with 3 show ?thesis by (simp add: nth_append distance_sym[of "cs ! i" c] add.commute)
  qed
qed

lemma loopBody_nonOverlapping:
  assumes "nonOverlapping (o_padding opts) (ps_circles st)"
    and "loopBody fl opts m r1 r2 r3 st = Some (Inr st')"
  shows "nonOverlapping (o_padding opts) (ps_circles st')"
proof -
  from loopBody_cases[OF assms(2)] consider
    (placed) c where "ps_circles st' = ps_circles st @ [c]"
      "isValidPlacement (circ_x c) (circ_y c) (circ_radius c) (ps_circles st) (packConstraints opts)"
    | (same) "ps_circles st' = ps_circles st"
    by blast
  then show ?thesis
  proof cases
    case placed
    have "\<forall>d \<in> set (ps_circles st). circ_radius c + circ_radius d + o_padding opts \<le> distance c d"
      using valid_separated[OF placed(2)] by (simp add: packConstraints_def)
    with assms(1) show ?thesis unfolding placed(1) by (rule nonOverlapping_snoc)
  next
    case same
    with assms(1) show ?thesis by simp
  qed
qed

text \<open>
  Claim C1. In the list of circles that \<open>_generateCircles\<close> returns, any two circles at
  different positions have their centres at least the sum of their radii plus the
  padding of the run apart.
\<close>

theorem generateCircles_nonOverlapping:
  assumes "generateCircles fl opts luminanceMap draws = Some (Inr circles)"
    and "i < length circles" and "j < length circles" and "i \<noteq> j"
  shows "distance (circles ! i) (circles ! j)
           \<ge> circ_radius (circles ! i) + circ_radius (circles ! j) + o_padding opts"
proof -
  from assms(1) obtain st rest where
    run: "generateCircles_loop fl opts luminanceMap draws (initialState opts) = Some (Inr (st, rest))"
    and cs: "circles = ps_circles st"
    by (auto simp: generateCircles_def generateCircles_run_def split: option.splits sum.splits)
  have "nonOverlapping (o_padding opts) (ps_circles st)"
    using run
  proof (rule loop_induct)
    show "nonOverlapping (o_padding opts) (ps_circles (initialState opts))"
      by (simp add: nonOverlapping_def initialState_def)
  qed (rule loopBody_nonOverlapping)
  with assms(2-4) show ?thesis
    unfolding cs nonOverlapping_def by blast
qed

lemma valid_withinBounds:
  assumes "isValidPlacement (circ_x c) (circ_y c) (circ_radius c) cs (packConstraints opts)"
  shows "withinBounds opts c"
  using assms
  by (auto simp: isValidPlacement_def withinBounds_def distanceFromCenter_def packConstraints_def
      Let_def not_less split: if_splits)

lemma loopBody_withinBounds:
  assumes "\<forall>c \<in> set (ps_circles st). withinBounds opts c"
    and "loopBody fl opts m r1 r2 r3 st = Some (Inr st')"
  shows "\<forall>c \<in> set (ps_circles st'). withinBounds opts c"
  using loopBody_cases[OF assms(2)] assms(1) valid_withinBounds by auto

text \<open>
  Claim C3. Every circle that \<open>_generateCircles\<close> returns has its bounding box inside the
  canvas less the margin, and in circular mode its distance from the centre of the canvas
  plus its radius is at most \<open>min(width, height) / 2 - margin\<close>.
\<close>

theorem generateCircles_withinBounds:
  assumes "generateCircles fl opts luminanceMap draws = Some (Inr circles)"
    and "c \<in> set circles"
  shows "circ_x c - circ_radius c \<ge> o_margin opts
       \<and> circ_x c + circ_radius c \<le> o_width opts - o_margin opts
       \<and> circ_y c - circ_radius c \<ge> o_margin opts
       \<and> circ_y c + circ_radius c \<le> o_height opts - o_margin opts
       \<and> (o_circular opts \<longrightarrow>
            distanceFromCenter opts c + circ_radius c
              \<le> min (o_width opts) (o_height opts) / 2 - o_margin opts)"
proof -
  from assms(1) obtain st rest where
    run: "generateCircles_loop fl opts luminanceMap draws (initialState opts) = Some (Inr (st, rest))"
    and cs: "circles = ps_circles st"
    by (auto simp: generateCircles_def generateCircles_run_def split: option.splits sum.splits)
  have "\<forall>c \<in> set (ps_circles st). withinBounds opts c"
    using run
  proof (rule loop_induct)
    show "\<forall>c \<in> set (ps_circles (initialState opts)). withinBounds opts c"
      by (simp add: initialState_def)
  qed (rule loopBody_withinBounds)
  with assms(2) have "withinBounds opts c" unfolding cs by blast
  then show ?thesis by (simp add: withinBounds_def)
qed

text \<open>
  Claim C9. With \<open>maxAttempts = 0\<close> the loop body never runs: for every mask, every other
  option and every sequence of draws, \<open>_generateCircles\<close> returns the empty list.
\<close>

theorem generateCircles_empty_budget:
  "generateCircles fl (opts\<lparr>o_maxAttempts := 0\<rparr>) luminanceMap draws = Some (Inr [])"
  by (simp add: generateCircles_def generateCircles_run_def generateCircles_loop.simps
      initialState_def)

text \<open>
  A run that returns, from any state with a counter that is not negative: the states at
  the loop tests are one more than the iterations, each iteration is a step of the
  counter as \<open>counterStep\<close> describes it, and the iterations are at least what the
  counter lacks to \<open>maxAttempts\<close> plus the circles placed.
\<close>

lemma loop_iterations:
  assumes "generateCircles_loop fl opts m draws st = Some (Inr (st', rest))"
    and "0 \<le> ps_attempts st"
  shows "\<exists>k. length draws = length rest + 3 * k
             \<and> length (generateCircles_states fl opts m draws st) = k + 1
             \<and> last (generateCircles_states fl opts m draws st) = st'
             \<and> (\<forall>i<k. counterStep opts (generateCircles_states fl opts m draws st ! i)
                         (generateCircles_states fl opts m draws st ! (i + 1)))
             \<and> o_maxAttempts opts - ps_attempts st
                  + int (length (ps_circles st')) - int (length (ps_circles st)) \<le> int k
             \<and> length (ps_circles st) \<le> length (ps_circles st')
             \<and> ps_attempts st' = max (ps_attempts st) (o_maxAttempts opts)"
  using assms
proof (induction fl opts m draws st rule: generateCircles_loop.induct)
  case (1 fl opts m draws st)
  show ?case
  proof (cases "ps_attempts st < o_maxAttempts opts")
    case False
    with "1.prems"(1) have "st' = st" "rest = draws"
      by (simp_all add: generateCircles_loop.simps)
    moreover from False have "generateCircles_states fl opts m draws st = [st]"
      by (subst generateCircles_states.simps) simp
    ultimately show ?thesis using False by simp
  next
    case True
    with "1.prems"(1) obtain r1 r2 r3 rest0 s1 where
      d: "draws = r1 # r2 # r3 # rest0"
      and b: "loopBody fl opts m r1 r2 r3 st = Some (Inr s1)"
      and r: "generateCircles_loop fl opts m rest0 s1 = Some (Inr (st', rest))"
      by (subst (asm) generateCircles_loop.simps)
         (auto split: list.splits option.splits sum.splits)
    have states: "generateCircles_states fl opts m draws st
                    = st # generateCircles_states fl opts m rest0 s1"
      using True d b by (subst generateCircles_states.simps) simp
    have cs: "counterStep opts st s1"
      using b True by (rule loopBody_counterStep)
    from loopBody_cases[OF b] "1.prems"(2) True
    have s1: "0 \<le> ps_attempts s1" "ps_attempts s1 \<le> o_maxAttempts opts"
      and len: "ps_attempts s1 + int (length (ps_circles s1))
                  \<le> ps_attempts st + int (length (ps_circles st)) + 1"
        "length (ps_circles st) \<le> length (ps_circles s1)"
      by (auto split: if_splits)
    from "1.IH"[OF True d refl refl b refl r s1(1)] obtain k where
      k: "length rest0 = length rest + 3 * k"
        "length (generateCircles_states fl opts m rest0 s1) = k + 1"
        "last (generateCircles_states fl opts m rest0 s1) = st'"
        "\<forall>i<k. counterStep opts (generateCircles_states fl opts m rest0 s1 ! i)
                  (generateCircles_states fl opts m rest0 s1 ! (i + 1))"
        "o_maxAttempts opts - ps_attempts s1
           + int (length (ps_circles st')) - int (length (ps_circles s1)) \<le> int k"
        "length (ps_circles s1) \<le> length (ps_circles st')"
        "ps_attempts st' = max (ps_attempts s1) (o_maxAttempts opts)"
      by blast
    from k(2) have ne: "generateCircles_states fl opts m rest0 s1 \<noteq> []"
      by auto
    have hd1: "generateCircles_states fl opts m rest0 s1 ! 0 = s1"
      by (subst generateCircles_states.simps) simp
    have "length draws = length rest + 3 * (k + 1)"
      using d k(1) by simp
    moreover have "length (generateCircles_states fl opts m draws st) = (k + 1) + 1"
      using states k(2) by simp
    moreover have "last (generateCircles_states fl opts m draws st) = st'"
      using states k(3) ne by simp
    moreover have "\<forall>i<k + 1. counterStep opts (generateCircles_states fl opts m draws st ! i)
                         (generateCircles_states fl opts m draws st ! (i + 1))"
    proof (intro allI impI)
      fix i assume i: "i < k + 1"
      show "counterStep opts (generateCircles_states fl opts m draws st ! i)
              (generateCircles_states fl opts m draws st ! (i + 1))"
      proof (cases i)
        case 0
        with cs hd1 show ?thesis by (simp add: states)
      next
        case (Suc i')
        with i k(4) show ?thesis by (simp add: states)
      qed
    qed
    moreover have "o_maxAttempts opts - ps_attempts st
        + int (length (ps_circles st')) - int (length (ps_circles st)) \<le> int (k + 1)"
      using k(5) len(1) by simp
    moreover have "length (ps_circles st) \<le> length (ps_circles st')"
      using k(6) len(2) by simp
    moreover have "ps_attempts st' = max (ps_attempts st) (o_maxAttempts opts)"
      using k(7) s1(2) True by simp
    ultimately show ?thesis by blast
  qed
qed

text \<open>
  Claim C2, as the code has it. The loop has one counter, \<open>attempts\<close>, tested before every
  iteration: an iteration runs only while the counter is below \<open>maxAttempts\<close>, and the run
  ends at the first test at which it is not. In a run that returns, three draws are read
  per iteration, and every iteration changes the counter as \<open>counterStep\<close> says: a
  placement sets it to 0; a failure adds 1 to it, and the annealing step, taken when the
  counter is then above 1000 and the radius ceiling above \<open>minRadius + 1\<close>, sets it to 0
  and multiplies the ceiling by 0.98. The run ends with the counter equal to
  \<open>maxAttempts\<close> (or to 0 when \<open>maxAttempts\<close> is negative), after at least \<open>maxAttempts\<close>
  plus the number of placed circles iterations.
\<close>

theorem generateCircles_iterations:
  assumes "generateCircles_run fl opts luminanceMap draws = Some (Inr (st, rest))"
  shows "length draws = length rest + 3 * iterations draws rest
       \<and> length (generateCircles_states fl opts luminanceMap draws (initialState opts))
           = iterations draws rest + 1
       \<and> generateCircles_states fl opts luminanceMap draws (initialState opts) ! 0
           = initialState opts
       \<and> last (generateCircles_states fl opts luminanceMap draws (initialState opts)) = st
       \<and> (\<forall>i < iterations draws rest.
            counterStep opts
              (generateCircles_states fl opts luminanceMap draws (initialState opts) ! i)
              (generateCircles_states fl opts luminanceMap draws (initialState opts) ! (i + 1)))
       \<and> ps_attempts st = max 0 (o_maxAttempts opts)
       \<and> o_maxAttempts opts + int (length (ps_circles st)) \<le> int (iterations draws rest)"
proof -
  from assms have run: "generateCircles_loop fl opts luminanceMap draws (initialState opts)
      = Some (Inr (st, rest))"
    by (simp add: generateCircles_run_def)
  have init: "0 \<le> ps_attempts (initialState opts)" "ps_attempts (initialState opts) = 0"
    "ps_circles (initialState opts) = []"
    by (simp_all add: initialState_def)
  from loop_iterations[OF run init(1)] obtain k where
    k: "length draws = length rest + 3 * k"
      "length (generateCircles_states fl opts luminanceMap draws (initialState opts)) = k + 1"
      "last (generateCircles_states fl opts luminanceMap draws (initialState opts)) = st"
      "\<forall>i<k. counterStep opts
          (generateCircles_states fl opts luminanceMap draws (initialState opts) ! i)
          (generateCircles_states fl opts luminanceMap draws (initialState opts) ! (i + 1))"
      "o_maxAttempts opts + int (length (ps_circles st)) \<le> int k"
      "ps_attempts st = max 0 (o_maxAttempts opts)"
    unfolding init(2,3) by auto
  from k(1) have it: "iterations draws rest = k"
    by (simp add: iterations_def)
  have "generateCircles_states fl opts luminanceMap draws (initialState opts) ! 0
          = initialState opts"
    by (subst generateCircles_states.simps) simp
  with k show ?thesis unfolding it by simp
qed

lemma sqrt_800: "\<not> sqrt 800 < 16"
  using real_le_rsqrt[of 16 800] by simp

lemma demo_samples_30: "samplePixels exact 30 30 8 demo_mask 40 40 = Some (Inr (0, 197))"
  by (simp add: samplePixels_def for_loop.simps samplePixel_def luminanceAt_def demo_mask_def
      exact_def)

lemma demo_color_30:
  "determineCircleColor exact 30 30 8 demo_mask (packColorOptions demo_opts)
     = Some (Inr (Str ''#4ECDC4''))"
  by (simp add: determineCircleColor_def packColorOptions_def demo_opts_fields demo_samples_30)

lemma demo_run_two:
  "generateCircles_run exact demo_opts demo_mask [1/4, 1/4, 0, 3/4, 3/4, 0, 0, 0, 0]
     = Some (Inr (\<lparr>ps_circles =
                     [\<lparr>circ_x = 10, circ_y = 10, circ_radius = 8, circ_color = Str ''#4ECDC4''\<rparr>,
                      \<lparr>circ_x = 30, circ_y = 30, circ_radius = 8, circ_color = Str ''#4ECDC4''\<rparr>],
                    ps_attempts = 1, ps_currentMaxRadius = 8\<rparr>, []))"
  by (simp add: generateCircles_run_def initialState_def generateCircles_loop.simps loopBody_def
      demo_color_10 demo_color_30 generateRandomPosition_def isValidPlacement_def
      packConstraints_def demo_opts_fields reduceRadius_def sqrt_800)

lemma demo_run_one:
  "generateCircles_run exact demo_opts demo_mask [1/4, 1/4, 0, 0, 0, 0]
     = Some (Inr (\<lparr>ps_circles =
                     [\<lparr>circ_x = 10, circ_y = 10, circ_radius = 8, circ_color = Str ''#4ECDC4''\<rparr>],
                    ps_attempts = 1, ps_currentMaxRadius = 8\<rparr>, []))"
  by (simp add: generateCircles_run_def initialState_def generateCircles_loop.simps loopBody_def
      demo_color_10 generateRandomPosition_def isValidPlacement_def packConstraints_def
      demo_opts_fields reduceRadius_def)

text \<open>
  The number of iterations is not \<open>maxAttempts\<close> in general: with \<open>maxAttempts = 1\<close>, a
  first iteration that places a circle and a second that fails make two iterations.
\<close>

theorem generateCircles_iterations_counterexample:
  "\<not> (\<forall>fl opts luminanceMap draws st rest.
         generateCircles_run fl opts luminanceMap draws = Some (Inr (st, rest))
         \<longrightarrow> int (iterations draws rest) = o_maxAttempts opts)"
proof
  assume "\<forall>fl opts luminanceMap draws st rest.
         generateCircles_run fl opts luminanceMap draws = Some (Inr (st, rest))
         \<longrightarrow> int (iterations draws rest) = o_maxAttempts opts"
  from this[rule_format, OF demo_run_one] show False
    by (simp add: iterations_def demo_opts_fields)
qed

lemma anneal_opts_fields:
  "o_width anneal_opts = 40" "o_height anneal_opts = 40" "o_margin anneal_opts = 0"
  "o_minRadius anneal_opts = 55 / 8" "o_maxRadius anneal_opts = 8"
  "o_maxAttempts anneal_opts = 1002" "o_circular anneal_opts = False"
  "o_padding anneal_opts = 0"
  "packColorOptions anneal_opts = packColorOptions demo_opts"
  by (simp_all add: anneal_opts_def demo_opts_def DEFAULT_OPTIONS_def packColorOptions_def)

text \<open>The draws 0, 0, 0 propose a circle around (0, 0), which is out of bounds.\<close>

lemma anneal_fail_body:
  "loopBody fl anneal_opts m 0 0 0 st
     = Some (Inr (reduceRadius anneal_opts (st\<lparr>ps_attempts := ps_attempts st + 1\<rparr>)))"
  by (simp add: loopBody_def generateRandomPosition_def isValidPlacement_def packConstraints_def
      anneal_opts_fields)

lemma anneal_fail_loop:
  assumes "ps_attempts st < 1002"
  shows "generateCircles_loop fl anneal_opts m (0 # 0 # 0 # rest) st
           = generateCircles_loop fl anneal_opts m rest
               (reduceRadius anneal_opts (st\<lparr>ps_attempts := ps_attempts st + 1\<rparr>))"
  using assms
  by (subst generateCircles_loop.simps) (simp add: anneal_fail_body anneal_opts_fields)

lemma anneal_fail_states:
  assumes "ps_attempts st < 1002"
  shows "generateCircles_states fl anneal_opts m (0 # 0 # 0 # rest) st
           = st # generateCircles_states fl anneal_opts m rest
                    (reduceRadius anneal_opts (st\<lparr>ps_attempts := ps_attempts st + 1\<rparr>))"
  using assms
  by (subst generateCircles_states.simps) (simp add: anneal_fail_body anneal_opts_fields)

text \<open>A thousand failures or fewer in a row, none of which takes the counter above 1000.\<close>

lemma anneal_failures:
  "ps_attempts st + int n \<le> 1000 \<Longrightarrow>
   generateCircles_loop fl anneal_opts m (replicate (3 * n) 0 @ rest) st
     = generateCircles_loop fl anneal_opts m rest (st\<lparr>ps_attempts := ps_attempts st + int n\<rparr>)"
proof (induction n arbitrary: st)
  case 0
  then show ?case by simp
next
  case (Suc n)
  have "3 * Suc n = Suc (Suc (Suc (3 * n)))"
    by simp
  then have r: "replicate (3 * Suc n) (0::real) @ rest = 0 # 0 # 0 # (replicate (3 * n) 0 @ rest)"
    by (simp only: replicate_Suc append_Cons)
  have a: "ps_attempts st < 1002" using Suc.prems by simp
  have red: "reduceRadius anneal_opts (st\<lparr>ps_attempts := ps_attempts st + 1\<rparr>)
               = st\<lparr>ps_attempts := ps_attempts st + 1\<rparr>"
    using Suc.prems by (simp add: reduceRadius_def)
  have "ps_attempts (st\<lparr>ps_attempts := ps_attempts st + 1\<rparr>) + int n \<le> 1000"
    using Suc.prems by simp
  from Suc.IH[OF this] show ?case
    unfolding r anneal_fail_loop[OF a] red by (simp add: algebra_simps)
qed

lemma replicate_6009:
  "replicate 6009 (0::real)
     = replicate (3 * 1000) 0 @ 0 # 0 # 0 # replicate (3 * 1000) 0 @ [0, 0, 0, 0, 0, 0]"
proof -
  have "replicate 6009 (0::real) = replicate (3 * 1000) 0 @ replicate 3 0 @ replicate (3 * 1000) 0
          @ replicate 6 0"
    by (simp add: replicate_add[symmetric])
  moreover have "replicate 3 (0::real) = [0, 0, 0]" "replicate 6 (0::real) = [0, 0, 0, 0, 0, 0]"
    by (simp_all add: numeral_eq_Suc)
  ultimately show ?thesis by simp
qed

text \<open>
  The run on these draws: a failure, a placement that sets the counter from 1 to 0, 1001
  failures and the annealing step from 8 to 7.84, 1002 failures and the end.
\<close>

lemma anneal_run:
  "generateCircles_run exact anneal_opts demo_mask anneal_draws
     = Some (Inr (\<lparr>ps_circles =
                     [\<lparr>circ_x = 10, circ_y = 10, circ_radius = 8, circ_color = Str ''#4ECDC4''\<rparr>],
                    ps_attempts = 1002, ps_currentMaxRadius = 7.84\<rparr>, []))"
proof -
  let ?c = "\<lparr>circ_x = 10, circ_y = 10, circ_radius = 8, circ_color = Str ''#4ECDC4''\<rparr>"
  let ?run = "generateCircles_loop exact anneal_opts demo_mask"
  have 1: "?run anneal_draws (initialState anneal_opts)
        = ?run (1 / 4 # 1 / 4 # 1 # replicate 6009 0)
            \<lparr>ps_circles = [], ps_attempts = 1, ps_currentMaxRadius = 8\<rparr>"
    unfolding anneal_draws_def
    by (simp add: anneal_fail_loop initialState_def anneal_opts_fields reduceRadius_def)
  have 2: "?run (1 / 4 # 1 / 4 # 1 # replicate 6009 0)
            \<lparr>ps_circles = [], ps_attempts = 1, ps_currentMaxRadius = 8\<rparr>
        = ?run (replicate 6009 0) \<lparr>ps_circles = [?c], ps_attempts = 0, ps_currentMaxRadius = 8\<rparr>"
    by (subst generateCircles_loop.simps)
       (simp add: loopBody_def generateRandomPosition_def isValidPlacement_def packConstraints_def
          anneal_opts_fields demo_color_10 reduceRadius_def)
  have 3: "?run (replicate 6009 0) \<lparr>ps_circles = [?c], ps_attempts = 0, ps_currentMaxRadius = 8\<rparr>
        = ?run (0 # 0 # 0 # replicate (3 * 1000) 0 @ [0, 0, 0, 0, 0, 0])
            \<lparr>ps_circles = [?c], ps_attempts = 1000, ps_currentMaxRadius = 8\<rparr>"
    unfolding replicate_6009 by (subst anneal_failures) simp_all
  have 4: "?run (0 # 0 # 0 # replicate (3 * 1000) 0 @ [0, 0, 0, 0, 0, 0])
            \<lparr>ps_circles = [?c], ps_attempts = 1000, ps_currentMaxRadius = 8\<rparr>
        = ?run (replicate (3 * 1000) 0 @ [0, 0, 0, 0, 0, 0])
            \<lparr>ps_circles = [?c], ps_attempts = 0, ps_currentMaxRadius = 7.84\<rparr>"
    by (simp add: anneal_fail_loop anneal_opts_fields reduceRadius_def)
  have 5: "?run (replicate (3 * 1000) 0 @ [0, 0, 0, 0, 0, 0])
            \<lparr>ps_circles = [?c], ps_attempts = 0, ps_currentMaxRadius = 7.84\<rparr>
        = ?run [0, 0, 0, 0, 0, 0]
            \<lparr>ps_circles = [?c], ps_attempts = 1000, ps_currentMaxRadius = 7.84\<rparr>"
    by (subst anneal_failures) simp_all
  have 6: "?run [0, 0, 0, 0, 0, 0]
            \<lparr>ps_circles = [?c], ps_attempts = 1000, ps_currentMaxRadius = 7.84\<rparr>
        = Some (Inr (\<lparr>ps_circles = [?c], ps_attempts = 1002, ps_currentMaxRadius = 7.84\<rparr>, []))"
  proof -
    have "?run [0, 0, 0, 0, 0, 0]
            \<lparr>ps_circles = [?c], ps_attempts = 1000, ps_currentMaxRadius = 7.84\<rparr>
        = ?run [] \<lparr>ps_circles = [?c], ps_attempts = 1002, ps_currentMaxRadius = 7.84\<rparr>"
      by (simp add: anneal_fail_loop anneal_opts_fields reduceRadius_def)
    also have "\<dots> = Some (Inr (\<lparr>ps_circles = [?c], ps_attempts = 1002,
                                 ps_currentMaxRadius = 7.84\<rparr>, []))"
      by (subst generateCircles_loop.simps) (simp add: anneal_opts_fields)
    finally show ?thesis .
  qed
  show ?thesis
    unfolding generateCircles_run_def 1 2 3 4 5 6 by (rule refl)
qed

text \<open>The first three states of that run: the placement sets the counter from 1 to 0.\<close>

lemma anneal_states:
  "\<exists>more. generateCircles_states exact anneal_opts demo_mask anneal_draws (initialState anneal_opts)
     = \<lparr>ps_circles = [], ps_attempts = 0, ps_currentMaxRadius = 8\<rparr>
       # \<lparr>ps_circles = [], ps_attempts = 1, ps_currentMaxRadius = 8\<rparr>
       # \<lparr>ps_circles = [\<lparr>circ_x = 10, circ_y = 10, circ_radius = 8,
                           circ_color = Str ''#4ECDC4''\<rparr>],
           ps_attempts = 0, ps_currentMaxRadius = 8\<rparr>
       # more"
proof -
  let ?states = "generateCircles_states exact anneal_opts demo_mask"
  have 1: "?states anneal_draws (initialState anneal_opts)
        = \<lparr>ps_circles = [], ps_attempts = 0, ps_currentMaxRadius = 8\<rparr>
          # ?states (1 / 4 # 1 / 4 # 1 # replicate 6009 0)
              \<lparr>ps_circles = [], ps_attempts = 1, ps_currentMaxRadius = 8\<rparr>"
    unfolding anneal_draws_def
    by (simp add: anneal_fail_states initialState_def anneal_opts_fields reduceRadius_def)
  have 2: "?states (1 / 4 # 1 / 4 # 1 # replicate 6009 0)
              \<lparr>ps_circles = [], ps_attempts = 1, ps_currentMaxRadius = 8\<rparr>
        = \<lparr>ps_circles = [], ps_attempts = 1, ps_currentMaxRadius = 8\<rparr>
          # ?states (replicate 6009 0)
              \<lparr>ps_circles = [\<lparr>circ_x = 10, circ_y = 10, circ_radius = 8,
                                circ_color = Str ''#4ECDC4''\<rparr>],
                ps_attempts = 0, ps_currentMaxRadius = 8\<rparr>"
    by (subst generateCircles_states.simps)
       (simp add: loopBody_def generateRandomPosition_def isValidPlacement_def packConstraints_def
          anneal_opts_fields demo_color_10 reduceRadius_def)
  have 3: "\<exists>more. ?states (replicate 6009 0)
              \<lparr>ps_circles = [\<lparr>circ_x = 10, circ_y = 10, circ_radius = 8,
                                circ_color = Str ''#4ECDC4''\<rparr>],
                ps_attempts = 0, ps_currentMaxRadius = 8\<rparr>
        = \<lparr>ps_circles = [\<lparr>circ_x = 10, circ_y = 10, circ_radius = 8,
                                circ_color = Str ''#4ECDC4''\<rparr>],
                ps_attempts = 0, ps_currentMaxRadius = 8\<rparr> # more"
    by (subst generateCircles_states.simps) simp
  from 3 show ?thesis unfolding 1 2 by auto
qed

text \<open>
  The theorem at that run: 2005 iterations for \<open>maxAttempts = 1002\<close> and one circle. The
  second iteration is a placement and sets the counter from 1 to 0; the radius ceiling
  ends at 7.84, after one annealing step.
\<close>

theorem generateCircles_iterations_witness:
  "generateCircles_run exact anneal_opts demo_mask anneal_draws
     = Some (Inr (\<lparr>ps_circles =
                     [\<lparr>circ_x = 10, circ_y = 10, circ_radius = 8, circ_color = Str ''#4ECDC4''\<rparr>],
                    ps_attempts = 1002, ps_currentMaxRadius = 7.84\<rparr>, []))
   \<and> o_maxAttempts anneal_opts = 1002
   \<and> iterations anneal_draws [] = 2005
   \<and> length (generateCircles_states exact anneal_opts demo_mask anneal_draws
               (initialState anneal_opts)) = 2006
   \<and> ps_attempts (generateCircles_states exact anneal_opts demo_mask anneal_draws
                    (initialState anneal_opts) ! 1) = 1
   \<and> ps_attempts (generateCircles_states exact anneal_opts demo_mask anneal_draws
                    (initialState anneal_opts) ! 2) = 0
   \<and> counterStep anneal_opts
        (generateCircles_states exact anneal_opts demo_mask anneal_draws
           (initialState anneal_opts) ! 1)
        (generateCircles_states exact anneal_opts demo_mask anneal_draws
           (initialState anneal_opts) ! 2)
   \<and> last (generateCircles_states exact anneal_opts demo_mask anneal_draws
             (initialState anneal_opts))
       = \<lparr>ps_circles =
            [\<lparr>circ_x = 10, circ_y = 10, circ_radius = 8, circ_color = Str ''#4ECDC4''\<rparr>],
          ps_attempts = 1002, ps_currentMaxRadius = 7.84\<rparr>"
proof -
  have it: "iterations anneal_draws [] = 2005"
    by (simp add: iterations_def anneal_draws_def)
  note inst = generateCircles_iterations[OF anneal_run]
  from inst have "\<forall>i<2005. counterStep anneal_opts
        (generateCircles_states exact anneal_opts demo_mask anneal_draws
           (initialState anneal_opts) ! i)
        (generateCircles_states exact anneal_opts demo_mask anneal_draws
           (initialState anneal_opts) ! (i + 1))"
    unfolding it by blast
  from this[rule_format, of 1] have step: "counterStep anneal_opts
        (generateCircles_states exact anneal_opts demo_mask anneal_draws
           (initialState anneal_opts) ! 1)
        (generateCircles_states exact anneal_opts demo_mask anneal_draws
           (initialState anneal_opts) ! 2)"
    by (simp add: numeral_2_eq_2)
  from anneal_states obtain more where
    st: "generateCircles_states exact anneal_opts demo_mask anneal_draws (initialState anneal_opts)
     = \<lparr>ps_circles = [], ps_attempts = 0, ps_currentMaxRadius = 8\<rparr>
       # \<lparr>ps_circles = [], ps_attempts = 1, ps_currentMaxRadius = 8\<rparr>
       # \<lparr>ps_circles = [\<lparr>circ_x = 10, circ_y = 10, circ_radius = 8,
                           circ_color = Str ''#4ECDC4''\<rparr>],
           ps_attempts = 0, ps_currentMaxRadius = 8\<rparr>
       # more"
    by blast
  have n: "ps_attempts (generateCircles_states exact anneal_opts demo_mask anneal_draws
                    (initialState anneal_opts) ! 1) = 1"
    "ps_attempts (generateCircles_states exact anneal_opts demo_mask anneal_draws
                    (initialState anneal_opts) ! 2) = 0"
    unfolding st by simp_all
  from inst step n anneal_run it show ?thesis
    by (simp add: anneal_opts_fields)
qed

text \<open>A run that places two circles of radius 8, around (10, 10) and around (30, 30).\<close>

theorem generateCircles_nonOverlapping_witness:
  "generateCircles exact demo_opts demo_mask [1/4, 1/4, 0, 3/4, 3/4, 0, 0, 0, 0]
     = Some (Inr [\<lparr>circ_x = 10, circ_y = 10, circ_radius = 8, circ_color = Str ''#4ECDC4''\<rparr>,
                  \<lparr>circ_x = 30, circ_y = 30, circ_radius = 8, circ_color = Str ''#4ECDC4''\<rparr>])
   \<and> distance \<lparr>circ_x = 10, circ_y = 10, circ_radius = 8, circ_color = Str ''#4ECDC4''\<rparr>
        \<lparr>circ_x = 30, circ_y = 30, circ_radius = 8, circ_color = Str ''#4ECDC4''\<rparr>
       \<ge> 8 + 8 + o_padding demo_opts"
proof -
  have run: "generateCircles exact demo_opts demo_mask [1/4, 1/4, 0, 3/4, 3/4, 0, 0, 0, 0]
     = Some (Inr [\<lparr>circ_x = 10, circ_y = 10, circ_radius = 8, circ_color = Str ''#4ECDC4''\<rparr>,
                  \<lparr>circ_x = 30, circ_y = 30, circ_radius = 8, circ_color = Str ''#4ECDC4''\<rparr>])"
    by (simp add: generateCircles_def demo_run_two)
  from generateCircles_nonOverlapping[OF run, of 0 1] run show ?thesis by simp
qed

lemma circ_opts_fields:
  "o_width circ_opts = 800" "o_height circ_opts = 800" "o_margin circ_opts = 50"
  "o_minRadius circ_opts = 8" "o_maxRadius circ_opts = 8" "o_maxAttempts circ_opts = 1"
  "o_circular circ_opts = True" "o_padding circ_opts = 0" "o_tolerance circ_opts = 1 / 10"
  "o_onColor circ_opts = Str ''#FF6B35''" "o_offColor circ_opts = Str ''#4ECDC4''"
  by (simp_all add: circ_opts_def DEFAULT_OPTIONS_def)

lemma circ_samples: "samplePixels exact 400 400 8 circ_mask 800 800 = Some (Inr (0, 197))"
  by (simp add: samplePixels_def for_loop.simps samplePixel_def luminanceAt_def circ_mask_def
      exact_def)

lemma circ_color:
  "determineCircleColor exact 400 400 8 circ_mask (packColorOptions circ_opts)
     = Some (Inr (Str ''#4ECDC4''))"
  by (simp add: determineCircleColor_def packColorOptions_def circ_opts_fields circ_samples)

lemma circ_run:
  "generateCircles exact circ_opts circ_mask [0, 0, 0, 0, 1, 0]
     = Some (Inr [\<lparr>circ_x = 400, circ_y = 400, circ_radius = 8, circ_color = Str ''#4ECDC4''\<rparr>])"
  by (simp add: generateCircles_def generateCircles_run_def initialState_def
      generateCircles_loop.simps loopBody_def circ_color generateRandomPosition_def
      isValidPlacement_def packConstraints_def circ_opts_fields reduceRadius_def)

text \<open>
  Circular mode on the default canvas of 800 by 800 with margin 50: the bound is 350, and
  the run places one circle of radius 8 at the centre.
\<close>

theorem generateCircles_withinBounds_witness:
  "generateCircles exact circ_opts circ_mask [0, 0, 0, 0, 1, 0]
     = Some (Inr [\<lparr>circ_x = 400, circ_y = 400, circ_radius = 8, circ_color = Str ''#4ECDC4''\<rparr>])
   \<and> o_circular circ_opts
   \<and> min (o_width circ_opts) (o_height circ_opts) / 2 - o_margin circ_opts = 350
   \<and> distanceFromCenter circ_opts
        \<lparr>circ_x = 400, circ_y = 400, circ_radius = 8, circ_color = Str ''#4ECDC4''\<rparr> + 8 \<le> 350
   \<and> (400::real) - 8 \<ge> o_margin circ_opts
   \<and> (400::real) + 8 \<le> o_width circ_opts - o_margin circ_opts"
  using generateCircles_withinBounds[OF circ_run,
      of "\<lparr>circ_x = 400, circ_y = 400, circ_radius = 8, circ_color = Str ''#4ECDC4''\<rparr>"] circ_run
  by (simp add: circ_opts_fields)






lemma zero_opts_fields:
  "o_width zero_opts = 40" "o_height zero_opts = 40" "o_margin zero_opts = 0"
  "o_minRadius zero_opts = 0" "o_maxRadius zero_opts = 0" "o_maxAttempts zero_opts = 1"
  "o_circular zero_opts = False" "o_padding zero_opts = 0"
  "packColorOptions zero_opts = packColorOptions demo_opts"
  by (simp_all add: zero_opts_def demo_opts_def DEFAULT_OPTIONS_def packColorOptions_def)

text \<open>
  The circle of radius 0 around (10, 10) on the small canvas, and a run of
  \<open>_generateCircles\<close> with \<open>minRadius = maxRadius = 0\<close> that proposes it: neither returns.
\<close>

theorem determineCircleColor_radius_zero_witness:
  "exact 0 = 0 \<and> maskShape demo_mask 40 40
   \<and> co_mapWidth (packColorOptions demo_opts) = real 40
   \<and> co_mapHeight (packColorOptions demo_opts) = real 40
   \<and> determineCircleColor exact 10 10 0 demo_mask (packColorOptions demo_opts) = None
   \<and> generateCircles exact zero_opts demo_mask [1 / 4, 1 / 4, 0] = None"
proof -
  have pre: "exact 0 = 0" "maskShape demo_mask 40 40"
    "co_mapWidth (packColorOptions demo_opts) = real 40"
    "co_mapHeight (packColorOptions demo_opts) = real 40"
    by (simp_all add: demo_mask_shape packColorOptions_def demo_opts_fields exact_def)
  note none = determineCircleColor_radius_zero[of exact demo_mask 40 40
      "packColorOptions demo_opts" 10 10, OF pre]
  have "generateCircles exact zero_opts demo_mask [1 / 4, 1 / 4, 0] = None"
    by (simp add: generateCircles_def generateCircles_run_def initialState_def
        generateCircles_loop.simps loopBody_def generateRandomPosition_def isValidPlacement_def
        packConstraints_def zero_opts_fields none)
  with none pre show ?thesis by simp
qed

section \<open>Text fitting: theorems\<close>

declare fontSizeLoop.simps [simp del] measuredSizes.simps [simp del]

text \<open>The two texts split as JavaScript splits them: one word, and two words.\<close>

lemma splitIntoWords_text_8: "splitIntoWords text_8 = [text_8]"
  by (simp add: splitIntoWords_def trim_def is_space_def text_8_def)

lemma splitIntoWords_text_A_nbsp_B: "splitIntoWords text_A_nbsp_B = [[0x41], [0x42]]"
  by (simp add: splitIntoWords_def trim_def is_space_def text_A_nbsp_B_def)

lemma measuredSizes_nonempty: "measuredSizes fits s \<noteq> []"
  by (subst measuredSizes.simps) simp

text \<open>
  The loop from the size \<open>s\<close>: the sizes measured are \<open>s * 0.95 ^ j\<close> in turn, none but the
  last can fit, and each after the first is above 20.
\<close>

lemma fontSizeLoop_shape:
  "\<exists>k. fontSizeLoop fits s = s * 0.95 ^ k
       \<and> (\<forall>j<k. \<not> fits (s * 0.95 ^ j))
       \<and> (\<forall>j<k. 0 < j \<longrightarrow> 20 < s * 0.95 ^ j)
       \<and> (\<forall>j < length (measuredSizes fits s). measuredSizes fits s ! j = s * 0.95 ^ j)
       \<and> (fits (fontSizeLoop fits s) \<and> length (measuredSizes fits s) = k + 1
            \<and> last (measuredSizes fits s) = fontSizeLoop fits s
            \<and> (0 < k \<longrightarrow> 20 < fontSizeLoop fits s)
          \<or> \<not> fits (last (measuredSizes fits s)) \<and> length (measuredSizes fits s) = k \<and> 0 < k
            \<and> fontSizeLoop fits s = last (measuredSizes fits s) * 0.95
            \<and> fontSizeLoop fits s \<le> 20)"
proof (induction fits s rule: fontSizeLoop.induct)
  case (1 fits s)
  consider (fit) "fits s" | (shrink) "\<not> fits s" "s * 0.95 > 20" | (floor) "\<not> fits s" "\<not> s * 0.95 > 20"
    by blast
  then show ?case
  proof cases
    case fit
    have "fontSizeLoop fits s = s"
      using fit by (subst fontSizeLoop.simps) simp
    moreover have "measuredSizes fits s = [s]"
      using fit by (subst measuredSizes.simps) simp
    ultimately show ?thesis
      using fit by (intro exI[of _ 0]) simp
  next
    case floor
    have "fontSizeLoop fits s = s * 0.95"
      using floor by (subst fontSizeLoop.simps) simp
    moreover have "measuredSizes fits s = [s]"
      using floor by (subst measuredSizes.simps) simp
    ultimately show ?thesis
      using floor by (intro exI[of _ 1]) simp
  next
    case shrink
    let ?s = "s * 0.95"
    have loop: "fontSizeLoop fits s = fontSizeLoop fits ?s"
      using shrink by (subst fontSizeLoop.simps) simp
    have ms: "measuredSizes fits s = s # measuredSizes fits ?s"
      using shrink by (subst measuredSizes.simps) simp
    from "1.IH"[OF shrink] obtain k where
      k: "fontSizeLoop fits ?s = ?s * 0.95 ^ k"
        "\<forall>j<k. \<not> fits (?s * 0.95 ^ j)"
        "\<forall>j<k. 0 < j \<longrightarrow> 20 < ?s * 0.95 ^ j"
        "\<forall>j < length (measuredSizes fits ?s). measuredSizes fits ?s ! j = ?s * 0.95 ^ j"
        "fits (fontSizeLoop fits ?s) \<and> length (measuredSizes fits ?s) = k + 1
            \<and> last (measuredSizes fits ?s) = fontSizeLoop fits ?s
            \<and> (0 < k \<longrightarrow> 20 < fontSizeLoop fits ?s)
         \<or> \<not> fits (last (measuredSizes fits ?s)) \<and> length (measuredSizes fits ?s) = k \<and> 0 < k
            \<and> fontSizeLoop fits ?s = last (measuredSizes fits ?s) * 0.95
            \<and> fontSizeLoop fits ?s \<le> 20"
      by blast
    have pw: "s * 0.95 ^ Suc j = ?s * 0.95 ^ j" for j
      by (simp add: mult.assoc)
    have a: "fontSizeLoop fits s = s * 0.95 ^ Suc k"
      using loop k(1) by (simp add: mult.assoc)
    have b: "\<forall>j<Suc k. \<not> fits (s * 0.95 ^ j)"
    proof (intro allI impI)
      fix j assume "j < Suc k"
      then show "\<not> fits (s * 0.95 ^ j)"
        using shrink(1) k(2) by (cases j) (auto simp: mult.assoc)
    qed
    have c: "\<forall>j<Suc k. 0 < j \<longrightarrow> 20 < s * 0.95 ^ j"
    proof (intro allI impI)
      fix j assume j: "j < Suc k" "0 < j"
      then obtain i where i: "j = Suc i" by (cases j) auto
      show "20 < s * 0.95 ^ j"
      proof (cases i)
        case 0
        with i shrink(2) show ?thesis by simp
      next
        case (Suc i')
        have "i < k" using j(1) i by simp
        moreover have "0 < i" using Suc by simp
        ultimately have "20 < ?s * 0.95 ^ i" using k(3) by blast
        then show ?thesis unfolding i pw .
      qed
    qed
    have d: "\<forall>j < length (measuredSizes fits s). measuredSizes fits s ! j = s * 0.95 ^ j"
    proof (intro allI impI)
      fix j assume "j < length (measuredSizes fits s)"
      then show "measuredSizes fits s ! j = s * 0.95 ^ j"
        using k(4) unfolding ms by (cases j) (auto simp: mult.assoc)
    qed
    have l: "last (measuredSizes fits s) = last (measuredSizes fits ?s)"
      "length (measuredSizes fits s) = length (measuredSizes fits ?s) + 1"
      using ms measuredSizes_nonempty by simp_all
    have e: "fits (fontSizeLoop fits s) \<and> length (measuredSizes fits s) = Suc k + 1
            \<and> last (measuredSizes fits s) = fontSizeLoop fits s
            \<and> (0 < Suc k \<longrightarrow> 20 < fontSizeLoop fits s)
          \<or> \<not> fits (last (measuredSizes fits s)) \<and> length (measuredSizes fits s) = Suc k
            \<and> 0 < Suc k
            \<and> fontSizeLoop fits s = last (measuredSizes fits s) * 0.95
            \<and> fontSizeLoop fits s \<le> 20"
    using k(5)
    proof (elim disjE conjE)
      assume f: "fits (fontSizeLoop fits ?s)"
        and n: "length (measuredSizes fits ?s) = k + 1"
        and la: "last (measuredSizes fits ?s) = fontSizeLoop fits ?s"
        and big: "0 < k \<longrightarrow> 20 < fontSizeLoop fits ?s"
      have "20 < fontSizeLoop fits ?s"
      proof (cases k)
        case 0
        with k(1) shrink(2) show ?thesis by simp
      next
        case (Suc k')
        with big show ?thesis by simp
      qed
      with f n la loop l show ?thesis by simp
    next
      assume "\<not> fits (last (measuredSizes fits ?s))"
        "length (measuredSizes fits ?s) = k" "0 < k"
        "fontSizeLoop fits ?s = last (measuredSizes fits ?s) * 0.95"
        "fontSizeLoop fits ?s \<le> 20"
      with loop l show ?thesis by simp
    qed
    from a b c d e show ?thesis by blast
  qed
qed

text \<open>
  Claim C8, as the code has it. For every text, every bound, every initial size and every
  measurement, \<open>calculateOptimalFontSize\<close> returns \<open>initialFontSize * 0.95 ^ k\<close> for some
  \<open>k\<close>. The sizes measured are \<open>initialFontSize * 0.95 ^ j\<close> in turn; none of the \<open>k\<close>
  sizes before the returned one fits, and each of them after the first is above 20, since
  the loop goes on only while the size is above 20. Either the returned size fits, and it
  is the last size measured; or the last size measured does not fit and the returned size
  is 0.95 times it, a size that was not measured and is at most 20.
\<close>

theorem calculateOptimalFontSize_result:
  "\<exists>k. let fits = textFits measureText text (splitIntoWords text) fontFamily maxWidth maxHeight;
           result = calculateOptimalFontSize measureText text maxWidth maxHeight
                      initialFontSize fontFamily;
           tried = measuredSizes fits initialFontSize
       in result = initialFontSize * 0.95 ^ k
        \<and> (\<forall>j<k. \<not> fits (initialFontSize * 0.95 ^ j))
        \<and> (\<forall>j<k. 0 < j \<longrightarrow> 20 < initialFontSize * 0.95 ^ j)
        \<and> (\<forall>j < length tried. tried ! j = initialFontSize * 0.95 ^ j)
        \<and> (fits result \<and> length tried = k + 1 \<and> last tried = result \<and> (0 < k \<longrightarrow> 20 < result)
           \<or> \<not> fits (last tried) \<and> length tried = k \<and> 0 < k
             \<and> result = last tried * 0.95 \<and> result \<le> 20)"
  using fontSizeLoop_shape[of "textFits measureText text (splitIntoWords text) fontFamily maxWidth maxHeight"
      initialFontSize]
  by (simp add: calculateOptimalFontSize_def Let_def)

lemma demo_fits:
  "textFits demo_measure text_8 (splitIntoWords text_8) f w h s \<longleftrightarrow> s \<le> w \<and> s \<le> h"
  by (simp add: splitIntoWords_text_8 textFits_def demo_measure_def) (simp add: text_8_def)

lemma demo_font_21:
  "calculateOptimalFontSize demo_measure text_8 10 10 21 ''Arial'' = 19.95"
  "measuredSizes (textFits demo_measure text_8 (splitIntoWords text_8) ''Arial'' 10 10) 21 = [21]"
  by (simp_all add: calculateOptimalFontSize_def fontSizeLoop.simps measuredSizes.simps demo_fits)

lemma demo_font_40:
  "calculateOptimalFontSize demo_measure text_8 38 38 40 ''Arial'' = 38"
  "measuredSizes (textFits demo_measure text_8 (splitIntoWords text_8) ''Arial'' 38 38) 40 = [40, 38]"
  by (simp_all add: calculateOptimalFontSize_def fontSizeLoop.simps measuredSizes.simps demo_fits)

text \<open>
  The size returned at the floor is neither 20 nor the last size tried: from 21, with a
  text that does not fit, the only size measured is 21 and the result is 19.95.
\<close>

theorem calculateOptimalFontSize_counterexample:
  "\<not> (\<forall>measureText text maxWidth maxHeight initialFontSize fontFamily.
        let fits = textFits measureText text (splitIntoWords text) fontFamily maxWidth maxHeight;
            result = calculateOptimalFontSize measureText text maxWidth maxHeight
                       initialFontSize fontFamily
        in fits result \<or> result = 20 \<or> result = last (measuredSizes fits initialFontSize))"
proof
  assume "\<forall>measureText text maxWidth maxHeight initialFontSize fontFamily.
        let fits = textFits measureText text (splitIntoWords text) fontFamily maxWidth maxHeight;
            result = calculateOptimalFontSize measureText text maxWidth maxHeight
                       initialFontSize fontFamily
        in fits result \<or> result = 20 \<or> result = last (measuredSizes fits initialFontSize)"
  from this[rule_format, of demo_measure text_8 "''Arial''" 10 10 21] show False
    by (simp add: Let_def demo_font_21 demo_fits)
qed

text \<open>
  From 40 with bounds of 38: 40 does not fit, 38 does and is returned. From 21 with
  bounds of 10: 21 does not fit, and 19.95 is returned without being measured.
\<close>

theorem calculateOptimalFontSize_result_witness:
  "calculateOptimalFontSize demo_measure text_8 38 38 40 ''Arial'' = 40 * 0.95 ^ 1
   \<and> \<not> textFits demo_measure text_8 (splitIntoWords text_8) ''Arial'' 38 38 40
   \<and> textFits demo_measure text_8 (splitIntoWords text_8) ''Arial'' 38 38 38
   \<and> measuredSizes (textFits demo_measure text_8 (splitIntoWords text_8) ''Arial'' 38 38) 40
       = [40, 38]
   \<and> calculateOptimalFontSize demo_measure text_8 10 10 21 ''Arial'' = 21 * 0.95 ^ 1
   \<and> \<not> textFits demo_measure text_8 (splitIntoWords text_8) ''Arial'' 10 10 21
   \<and> measuredSizes (textFits demo_measure text_8 (splitIntoWords text_8) ''Arial'' 10 10) 21 = [21]
   \<and> (21::real) * 0.95 ^ 1 \<le> 20"
  using calculateOptimalFontSize_result[of demo_measure text_8 "''Arial''" 38 38 40]
    calculateOptimalFontSize_result[of demo_measure text_8 "''Arial''" 10 10 21]
  by (simp add: demo_font_40 demo_font_21 demo_fits)

section \<open>The palette option: theorems\<close>

text \<open>What the constructor does with a palette name that is not empty.\<close>

lemma newColorVisionGenerator_lookup:
  assumes "o_palette merged = Some paletteName" "paletteName \<noteq> []"
  shows "newColorVisionGenerator merged =
     (case map_of COLOR_PALETTES (toLowerCase paletteName) of
        Some p \<Rightarrow> (merged\<lparr>o_onColor := Str (p_onColor p), o_offColor := Str (p_offColor p)\<rparr>, [])
      | None \<Rightarrow>
          if toLowerCase paletteName \<in> set objectPrototypeKeys
          then (merged\<lparr>o_onColor := Undefined, o_offColor := Undefined\<rparr>, [])
          else (merged,
                [''Warning: Palette \"'' @ paletteName @ ''\" not found. Using default colors.'']))"
  using assms
  by (simp add: newColorVisionGenerator_def getPalette_def getProperty_def split: option.splits)

text \<open>
  Claim C10 at the palette name \<open>Constructor\<close>. The catalog has no entry
  \<open>constructor\<close> and \<open>isValidPalette\<close> says so, yet the constructor takes the member of
  \<open>Object.prototype\<close> for a palette, sets both colours to \<open>undefined\<close> and warns of
  nothing.
\<close>

theorem newColorVisionGenerator_inherited_key:
  "map_of COLOR_PALETTES (toLowerCase ''Constructor'') = None
   \<and> isValidPalette ''Constructor'' = False
   \<and> newColorVisionGenerator (DEFAULT_OPTIONS\<lparr>o_palette := Some ''Constructor''\<rparr>)
       = (DEFAULT_OPTIONS\<lparr>o_palette := Some ''Constructor'', o_onColor := Undefined,
                           o_offColor := Undefined\<rparr>, [])"
  by (simp add: newColorVisionGenerator_def getPalette_def getProperty_def isValidPalette_def
      toLowerCase_def COLOR_PALETTES_def objectPrototypeKeys_def)

text \<open>A name of the catalog, in another case: both colours are those of the entry.\<close>

lemma newColorVisionGenerator_known:
  "newColorVisionGenerator (DEFAULT_OPTIONS\<lparr>o_palette := Some ''Protanopia''\<rparr>)
     = (DEFAULT_OPTIONS\<lparr>o_palette := Some ''Protanopia'', o_onColor := Str ''#8B0000'',
                         o_offColor := Str ''#90EE90''\<rparr>, [])"
  by (simp add: newColorVisionGenerator_def getPalette_def getProperty_def
      toLowerCase_def COLOR_PALETTES_def)


end
